theory Spec2Isabelle
  imports Main "HOL-Library.Char_ord" "HOL-Library.List_Lexorder" "HOL-Library.Multiset"
begin

section \<open>The model\<close>

subsection \<open>Text decoding: \<open>unescapeICalText\<close> (internal/caldav/client.go)\<close>

text \<open>
  Go strings are byte sequences and \<open>s[i]\<close> reads one byte, so a Go string is a
  \<^typ>\<open>string\<close> (a list of 8-bit characters). The backslash is \<open>0x5C\<close>, the
  newline is \<open>0x0A\<close>.
\<close>

definition backslash :: char where
  "backslash = CHR 0x5C"

definition newline :: char where
  "newline = CHR 0x0A"

text \<open>
  The loop of \<open>unescapeICalText\<close>: \<open>i\<close> is the loop index, \<open>result\<close> the
  builder. A recognised pair advances the index by two (the \<open>i++\<close> of the case and the
  \<open>i++\<close> of the loop), every other step by one.
\<close>

function unescape_loop :: "string \<Rightarrow> nat \<Rightarrow> string \<Rightarrow> string" where
  "unescape_loop s i result =
     (if i < length s then
        (if s ! i = backslash \<and> i + 1 < length s then
           (let next = s ! (i + 1) in
            if next = CHR '','' \<or> next = CHR '';'' \<or> next = backslash
              then unescape_loop s (i + 2) (result @ [next])
            else if next = CHR ''n'' \<or> next = CHR ''N''
              then unescape_loop s (i + 2) (result @ [newline])
            else unescape_loop s (i + 1) (result @ [backslash]))
         else unescape_loop s (i + 1) (result @ [s ! i]))
      else result)"
  by pat_completeness auto
termination
  by (relation "measure (\<lambda>(s, i, result). length s - i)") auto

definition unescapeICalText :: "string \<Rightarrow> string" where
  "unescapeICalText s = unescape_loop s 0 []"

declare unescape_loop.simps [simp del]

subsection \<open>Go's \<open>strings\<close> and \<open>strconv\<close> functions used by the parsers\<close>

text \<open>
  The standard library is not part of the repository; the functions the parsers call are
  modelled from their documented behaviour on byte strings, for the one-byte separators
  the code passes.
\<close>

definition strings_HasPrefix :: "string \<Rightarrow> string \<Rightarrow> bool" where
  "strings_HasPrefix s pre = (take (length pre) s = pre)"

definition strings_Contains :: "string \<Rightarrow> char \<Rightarrow> bool" where
  "strings_Contains s c = (c \<in> set s)"

text \<open>\<open>strings.Index\<close>, called only where \<open>strings.Contains\<close> holds.\<close>

definition strings_Index :: "string \<Rightarrow> char \<Rightarrow> nat" where
  "strings_Index s c = length (takeWhile (\<lambda>x. x \<noteq> c) s)"

definition strings_TrimSuffix :: "string \<Rightarrow> char \<Rightarrow> string" where
  "strings_TrimSuffix s c = (if s \<noteq> [] \<and> last s = c then butlast s else s)"

text \<open>\<open>strings.Split(s, sep)\<close> for a one-byte separator: never the empty list.\<close>

fun strings_Split :: "string \<Rightarrow> char \<Rightarrow> string list" where
  "strings_Split [] c = [[]]"
| "strings_Split (x # xs) c =
     (if x = c then [] # strings_Split xs c
      else (case strings_Split xs c of
              [] \<Rightarrow> [[x]]
            | p # ps \<Rightarrow> (x # p) # ps))"

definition isDigit :: "char \<Rightarrow> bool" where
  "isDigit c = (CHR ''0'' \<le> c \<and> c \<le> CHR ''9'')"

definition digitVal :: "char \<Rightarrow> int" where
  "digitVal c = int (of_char c) - 48"

definition decimal :: "string \<Rightarrow> int" where
  "decimal ds = foldl (\<lambda>a c. a * 10 + digitVal c) 0 ds"

text \<open>
  \<open>strconv.Atoi\<close> on a 64-bit platform: an optional sign and at least one decimal
  digit, nothing else; \<open>None\<close> is the syntax error or the range error (a value outside
  \<open>int64\<close>).
\<close>

definition strconv_Atoi :: "string \<Rightarrow> int option" where
  "strconv_Atoi s =
     (let neg = (s \<noteq> [] \<and> hd s = CHR ''-'');
          ds = (if s \<noteq> [] \<and> (hd s = CHR ''-'' \<or> hd s = CHR ''+'') then tl s else s)
      in if ds = [] \<or> \<not> list_all isDigit ds then None
         else (let v = (if neg then - decimal ds else decimal ds)
               in if v < - (2 ^ 63) \<or> 2 ^ 63 - 1 < v then None else Some v))"

subsection \<open>Go's \<open>time\<close> package: durations, locations, instants\<close>

text \<open>
  A \<open>time.Duration\<close> is an \<open>int64\<close> count of nanoseconds. Durations are integers
  here and \<open>i64\<close> is the wrap-around of 64-bit arithmetic, written wherever the code
  multiplies, adds or negates a duration.
\<close>

type_synonym Duration = int

definition i64 :: "int \<Rightarrow> int" where
  "i64 x = (x + 2 ^ 63) mod 2 ^ 64 - 2 ^ 63"

definition Second :: Duration where "Second = 1000000000"
definition Minute :: Duration where "Minute = 60 * Second"
definition Hour :: Duration where "Hour = 60 * Minute"

definition minDuration :: Duration where "minDuration = - (2 ^ 63)"
definition maxDuration :: Duration where "maxDuration = 2 ^ 63 - 1"

text \<open>
  A \<open>*time.Location\<close>: a name, the offset (seconds east of UTC) in force before the
  first transition, and the transitions in ascending order, each the Unix second at
  which a new offset starts. \<open>zone_lookup\<close> is \<open>Location.lookup\<close>: the offset in force
  at a Unix second and the bounds of the period it belongs to (\<open>alpha\<close> and \<open>omega\<close>
  are Go's sentinels for an unbounded period).
\<close>

datatype time_Location = Zone (zoneName: string) (zoneInit: int) (zoneTrans: "(int \<times> int) list")

definition utcLoc :: time_Location where
  "utcLoc = Zone ''UTC'' 0 []"

definition alpha :: int where "alpha = - (2 ^ 63)"
definition omega :: int where "omega = 2 ^ 63 - 1"

fun lookup_from :: "int \<Rightarrow> int \<Rightarrow> (int \<times> int) list \<Rightarrow> int \<Rightarrow> int \<times> int \<times> int" where
  "lookup_from off start [] sec = (off, start, omega)"
| "lookup_from off start ((w, off') # ts) sec =
     (if sec < w then (off, start, w) else lookup_from off' w ts sec)"

definition zone_lookup :: "time_Location \<Rightarrow> int \<Rightarrow> int \<times> int \<times> int" where
  "zone_lookup loc sec = lookup_from (zoneInit loc) alpha (zoneTrans loc) sec"

definition zone_offset :: "time_Location \<Rightarrow> int \<Rightarrow> int" where
  "zone_offset loc sec = fst (zone_lookup loc sec)"

text \<open>
  A \<open>time.Time\<close> without monotonic reading: the instant, in nanoseconds since
  1970-01-01T00:00:00Z, and the location it is presented in. The seconds of a
  \<open>time.Time\<close> are an \<open>int64\<close> counted from year 1, far beyond every date the
  four-digit years of the parsers reach, so the instant is an unbounded integer.
\<close>

record Time =
  unixNano :: int
  zone :: time_Location

definition Time_Add :: "Time \<Rightarrow> Duration \<Rightarrow> Time" where
  "Time_Add t d = t\<lparr>unixNano := unixNano t + d\<rparr>"

text \<open>\<open>Time.Sub\<close> saturates at the least and the greatest \<open>Duration\<close>.\<close>

definition Time_Sub :: "Time \<Rightarrow> Time \<Rightarrow> Duration" where
  "Time_Sub t u =
     (let d = unixNano t - unixNano u
      in if d < minDuration then minDuration
         else if maxDuration < d then maxDuration
         else d)"

definition Time_Equal :: "Time \<Rightarrow> Time \<Rightarrow> bool" where
  "Time_Equal t u = (unixNano t = unixNano u)"

definition Time_Before :: "Time \<Rightarrow> Time \<Rightarrow> bool" where
  "Time_Before t u = (unixNano t < unixNano u)"

definition Time_After :: "Time \<Rightarrow> Time \<Rightarrow> bool" where
  "Time_After t u = (unixNano t > unixNano u)"

definition Time_In :: "Time \<Rightarrow> time_Location \<Rightarrow> Time" where
  "Time_In t loc = t\<lparr>zone := loc\<rparr>"

definition Time_UTC :: "Time \<Rightarrow> Time" where
  "Time_UTC t = Time_In t utcLoc"

subsection \<open>Go's \<open>time\<close> package: the civil calendar\<close>

text \<open>
  Days are counted from 1970-01-01 in the proleptic Gregorian calendar.
  \<open>days_from_civil\<close> is the day number of a date, \<open>civil_from_days\<close> its inverse.
\<close>

definition days_from_civil :: "int \<Rightarrow> int \<Rightarrow> int \<Rightarrow> int" where
  "days_from_civil y m d =
     (let y' = (if m \<le> 2 then y - 1 else y);
          era = y' div 400;
          yoe = y' - era * 400;
          doy = (153 * (if 2 < m then m - 3 else m + 9) + 2) div 5 + d - 1;
          doe = yoe * 365 + yoe div 4 - yoe div 100 + doy
      in era * 146097 + doe - 719468)"

definition civil_from_days :: "int \<Rightarrow> int \<times> int \<times> int" where
  "civil_from_days z =
     (let z' = z + 719468;
          era = z' div 146097;
          doe = z' - era * 146097;
          yoe = (doe - doe div 1460 + doe div 36524 - doe div 146096) div 365;
          doy = doe - (365 * yoe + yoe div 4 - yoe div 100);
          mp = (5 * doy + 2) div 153;
          d = doy - (153 * mp + 2) div 5 + 1;
          m = (if mp < 10 then mp + 3 else mp - 9);
          y = yoe + era * 400
      in (if m \<le> 2 then y + 1 else y, m, d))"

definition isLeap :: "int \<Rightarrow> bool" where
  "isLeap y = (y mod 4 = 0 \<and> (y mod 100 \<noteq> 0 \<or> y mod 400 = 0))"

definition daysIn :: "int \<Rightarrow> int \<Rightarrow> int" where
  "daysIn m y =
     (if m = 2 then (if isLeap y then 29 else 28)
      else if m = 4 \<or> m = 6 \<or> m = 9 \<or> m = 11 then 30 else 31)"

text \<open>
  \<open>time.Date\<close>: the month is normalised into the year, the other fields add up
  linearly, and the wall-clock reading is turned into an instant by looking the offset
  up at the reading itself and, when that lands outside the period found, once more at
  the corrected instant.
\<close>

definition time_Date ::
  "int \<Rightarrow> int \<Rightarrow> int \<Rightarrow> int \<Rightarrow> int \<Rightarrow> int \<Rightarrow> int \<Rightarrow> time_Location \<Rightarrow> Time" where
  "time_Date year month day hour minute sec nsec loc =
     (let y = year + (month - 1) div 12;
          m = (month - 1) mod 12 + 1;
          wall = (days_from_civil y m 1 + (day - 1)) * 86400 + hour * 3600 + minute * 60 + sec;
          (off, start, end) = zone_lookup loc wall;
          unix = (if off \<noteq> 0
                  then (let utc = wall - off
                        in if utc < start \<or> end \<le> utc
                           then wall - zone_offset loc utc
                           else wall - off)
                  else wall)
      in \<lparr>unixNano = unix * 1000000000 + nsec, zone = loc\<rparr>)"

text \<open>The wall-clock reading of a time in its location, in seconds, and its fields.\<close>

definition Time_wall :: "Time \<Rightarrow> int" where
  "Time_wall t = (let sec = unixNano t div 1000000000 in sec + zone_offset (zone t) sec)"

definition Time_Year :: "Time \<Rightarrow> int" where
  "Time_Year t = fst (civil_from_days (Time_wall t div 86400))"

definition Time_Month :: "Time \<Rightarrow> int" where
  "Time_Month t = fst (snd (civil_from_days (Time_wall t div 86400)))"

definition Time_Day :: "Time \<Rightarrow> int" where
  "Time_Day t = snd (snd (civil_from_days (Time_wall t div 86400)))"

definition Time_Hour :: "Time \<Rightarrow> int" where
  "Time_Hour t = (Time_wall t mod 86400) div 3600"

definition Time_Minute :: "Time \<Rightarrow> int" where
  "Time_Minute t = (Time_wall t mod 3600) div 60"

definition Time_Second :: "Time \<Rightarrow> int" where
  "Time_Second t = Time_wall t mod 60"

definition Time_Nanosecond :: "Time \<Rightarrow> int" where
  "Time_Nanosecond t = unixNano t mod 1000000000"

definition Time_AddDate :: "Time \<Rightarrow> int \<Rightarrow> int \<Rightarrow> int \<Rightarrow> Time" where
  "Time_AddDate t years months days =
     time_Date (Time_Year t + years) (Time_Month t + months) (Time_Day t + days)
       (Time_Hour t) (Time_Minute t) (Time_Second t) (Time_Nanosecond t) (zone t)"

subsection \<open>Go's \<open>time\<close> package: the layouts the repository parses and prints\<close>

text \<open>
  A layout is the sequence of chunks \<open>time.Parse\<close> cuts it into. The repository uses
  four: \<open>"2006-01-02"\<close>, \<open>"20060102"\<close>, \<open>"20060102T150405"\<close> and
  \<open>"20060102T150405Z"\<close>. In Go's layout language a \<open>Z\<close> that is not followed by
  \<open>07\<close> is no zone chunk: it is a literal byte that the value must carry, like the
  \<open>T\<close> and the dashes.
\<close>

datatype chunk =
  stdLongYear | stdZeroMonth | stdZeroDay | stdHour | stdZeroMinute | stdZeroSecond
  | literal char

definition layout_2006_01_02 :: "chunk list" where
  "layout_2006_01_02 =
     [stdLongYear, literal (CHR ''-''), stdZeroMonth, literal (CHR ''-''), stdZeroDay]"

definition layout_20060102 :: "chunk list" where
  "layout_20060102 = [stdLongYear, stdZeroMonth, stdZeroDay]"

definition layout_20060102T150405 :: "chunk list" where
  "layout_20060102T150405 =
     [stdLongYear, stdZeroMonth, stdZeroDay, literal (CHR ''T''),
      stdHour, stdZeroMinute, stdZeroSecond]"

definition layout_20060102T150405Z :: "chunk list" where
  "layout_20060102T150405Z =
     [stdLongYear, stdZeroMonth, stdZeroDay, literal (CHR ''T''),
      stdHour, stdZeroMinute, stdZeroSecond, literal (CHR ''Z'')]"

record parsed =
  pYear :: int
  pMonth :: int
  pDay :: int
  pHour :: int
  pMin :: int
  pSec :: int
  pNsec :: int

text \<open>\<open>getnum\<close>: one or two digits; exactly two when \<open>fixed\<close>.\<close>

fun getnum :: "string \<Rightarrow> bool \<Rightarrow> (int \<times> string) option" where
  "getnum [] fixed = None"
| "getnum [a] fixed =
     (if \<not> isDigit a \<or> fixed then None else Some (digitVal a, []))"
| "getnum (a # b # r) fixed =
     (if \<not> isDigit a then None
      else if isDigit b then Some (digitVal a * 10 + digitVal b, r)
      else if fixed then None
      else Some (digitVal a, b # r))"

text \<open>
  A fractional second in the value is read even when the layout has none: a period or
  a comma and at least one digit after the seconds; nine digits count.
\<close>

definition fractional :: "string \<Rightarrow> int \<times> string" where
  "fractional v =
     (if 2 \<le> length v \<and> (hd v = CHR ''.'' \<or> hd v = CHR '','') \<and> isDigit (v ! 1)
      then (let ds = takeWhile isDigit (tl v);
                ds9 = take 9 ds
            in (decimal ds9 * 10 ^ (9 - length ds9), drop (1 + length ds) v))
      else (0, v))"

fun parse_layout :: "chunk list \<Rightarrow> string \<Rightarrow> parsed \<Rightarrow> parsed option" where
  "parse_layout [] v p = (if v = [] then Some p else None)"
| "parse_layout (literal c # cs) v p =
     (case v of [] \<Rightarrow> None | x # r \<Rightarrow> if x = c then parse_layout cs r p else None)"
| "parse_layout (stdLongYear # cs) v p =
     (if length v < 4 \<or> \<not> list_all isDigit (take 4 v) then None
      else parse_layout cs (drop 4 v) (p\<lparr>pYear := decimal (take 4 v)\<rparr>))"
| "parse_layout (stdZeroMonth # cs) v p =
     (case getnum v True of None \<Rightarrow> None
      | Some (n, r) \<Rightarrow> if n \<le> 0 \<or> 12 < n then None else parse_layout cs r (p\<lparr>pMonth := n\<rparr>))"
| "parse_layout (stdZeroDay # cs) v p =
     (case getnum v True of None \<Rightarrow> None
      | Some (n, r) \<Rightarrow> parse_layout cs r (p\<lparr>pDay := n\<rparr>))"
| "parse_layout (stdHour # cs) v p =
     (case getnum v False of None \<Rightarrow> None
      | Some (n, r) \<Rightarrow> if n < 0 \<or> 24 \<le> n then None else parse_layout cs r (p\<lparr>pHour := n\<rparr>))"
| "parse_layout (stdZeroMinute # cs) v p =
     (case getnum v True of None \<Rightarrow> None
      | Some (n, r) \<Rightarrow> if n < 0 \<or> 60 \<le> n then None else parse_layout cs r (p\<lparr>pMin := n\<rparr>))"
| "parse_layout (stdZeroSecond # cs) v p =
     (case getnum v True of None \<Rightarrow> None
      | Some (n, r) \<Rightarrow>
          if n < 0 \<or> 60 \<le> n then None
          else (let (ns, r') = fractional r
                in parse_layout cs r' (p\<lparr>pSec := n, pNsec := ns\<rparr>)))"

text \<open>
  \<open>time.ParseInLocation\<close> for a layout without zone chunk: the fields are read, the
  day is checked against the month, and the wall-clock reading is taken in \<open>loc\<close>.
  \<open>None\<close> is the parse error. \<open>time.Parse\<close> is the same in UTC.
\<close>

definition time_ParseInLocation :: "chunk list \<Rightarrow> string \<Rightarrow> time_Location \<Rightarrow> Time option" where
  "time_ParseInLocation layout v loc =
     (case parse_layout layout v
             \<lparr>pYear = 0, pMonth = 1, pDay = 1, pHour = 0, pMin = 0, pSec = 0, pNsec = 0\<rparr> of
        None \<Rightarrow> None
      | Some p \<Rightarrow>
          if pDay p < 1 \<or> daysIn (pMonth p) (pYear p) < pDay p then None
          else Some (time_Date (pYear p) (pMonth p) (pDay p) (pHour p) (pMin p) (pSec p)
                       (pNsec p) loc))"

definition time_Parse :: "chunk list \<Rightarrow> string \<Rightarrow> Time option" where
  "time_Parse layout v = time_ParseInLocation layout v utcLoc"

text \<open>\<open>Time.Format\<close> for the same chunks: zero-padded decimal fields.\<close>

definition digitChar :: "int \<Rightarrow> char" where
  "digitChar n = ''0123456789'' ! nat n"

function intDigits :: "int \<Rightarrow> string" where
  "intDigits n =
     (if n < 10 then [digitChar n]
      else intDigits (n div 10) @ [digitChar (n mod 10)])"
  by pat_completeness auto
termination
  by (relation "measure nat") auto

declare intDigits.simps [simp del]

definition appendInt :: "int \<Rightarrow> nat \<Rightarrow> string" where
  "appendInt x width =
     (let ds = intDigits \<bar>x\<bar>;
          padded = replicate (width - length ds) (CHR ''0'') @ ds
      in if x < 0 then CHR ''-'' # padded else padded)"

fun format_chunk :: "chunk \<Rightarrow> Time \<Rightarrow> string" where
  "format_chunk (literal c) t = [c]"
| "format_chunk stdLongYear t = appendInt (Time_Year t) 4"
| "format_chunk stdZeroMonth t = appendInt (Time_Month t) 2"
| "format_chunk stdZeroDay t = appendInt (Time_Day t) 2"
| "format_chunk stdHour t = appendInt (Time_Hour t) 2"
| "format_chunk stdZeroMinute t = appendInt (Time_Minute t) 2"
| "format_chunk stdZeroSecond t = appendInt (Time_Second t) 2"

definition Time_Format :: "Time \<Rightarrow> chunk list \<Rightarrow> string" where
  "Time_Format t layout = concat (map (\<lambda>c. format_chunk c t) layout)"

subsection \<open>Events and their ordering (internal/caldav/event.go)\<close>

record Event =
  UID :: string
  Summary :: string
  Description :: string
  Location :: string
  Start :: Time
  End :: Time
  AllDay :: bool
  CalendarName :: string
  CalendarColor :: string
  IsRecurring :: bool

text \<open>
  \<open>Events.Less\<close> on the two events the indices select. Go compares strings byte by
  byte, a proper prefix first: the lexicographic order of \<^typ>\<open>string\<close>.
\<close>

definition Events_Less :: "Event \<Rightarrow> Event \<Rightarrow> bool" where
  "Events_Less a b =
     (if AllDay a \<noteq> AllDay b then AllDay a
      else if \<not> Time_Equal (Start a) (Start b) then Time_Before (Start a) (Start b)
      else Summary a < Summary b)"

subsection \<open>Go's \<open>sort.Sort\<close>\<close>

text \<open>
  \<open>sort.Sort\<close> belongs to the standard library and is not stable. It is a
  pattern-defeating quicksort (\<open>pdqsort\<close>) that, on the whole slice, does this:
  \<^item> a slice of up to twelve elements is sorted by insertion: each element in turn
    sinks towards the front while it is less than its left neighbour;
  \<^item> on a longer slice \<open>choosePivot\<close> compares up to twelve pairs of elements and
    counts the pairs it finds out of order; no such pair is the hint that the slice is
    ascending, twelve of them is the hint that it is descending, and the slice is then
    reversed;
  \<^item> with the ascending hint \<open>partialInsertionSort\<close> walks over the slice, and
    when no element is less than its left neighbour \<open>pdqsort\<close> returns with the slice
    as it is;
  \<^item> in every other case the slice goes through the shifts, partitions, recursive
    calls and the heap sort of the rest of \<open>pdqsort\<close>.
  The first three steps are modelled as Go runs them. The rest is taken from the
  environment, as any function that meets the contract of \<open>sort.Sort\<close>: it returns
  the elements it was given, in an order in which no element is less than an earlier
  one.
\<close>

function sink :: "Event \<Rightarrow> Event list \<Rightarrow> Event list" where
  "sink x ys =
     (if ys \<noteq> [] \<and> Events_Less x (last ys) then sink x (butlast ys) @ [last ys]
      else ys @ [x])"
  by pat_completeness auto
termination
  by (relation "measure (\<lambda>(x, ys). length ys)") auto

declare sink.simps [simp del]

fun insertionSort :: "Event list \<Rightarrow> Event list \<Rightarrow> Event list" where
  "insertionSort front [] = front"
| "insertionSort front (x # rest) = insertionSort (sink x front) rest"

datatype sortedHint = unknownHint | increasingHint | decreasingHint

definition maxInsertion :: nat where "maxInsertion = 12"
definition shortestNinther :: nat where "shortestNinther = 50"
definition maxSwaps :: nat where "maxSwaps = 4 * 3"

text \<open>
  \<open>order2\<close>, \<open>median\<close> and \<open>medianAdjacent\<close> work on indices of the slice and
  count in \<open>swaps\<close> the pairs found out of order; \<open>choosePivot\<close> is called on a
  slice of more than twelve elements, where every index it reads exists.
\<close>

definition order2 :: "Event list \<Rightarrow> nat \<Rightarrow> nat \<Rightarrow> nat \<Rightarrow> nat \<times> nat \<times> nat" where
  "order2 data a b swaps =
     (if Events_Less (data ! b) (data ! a) then (b, a, swaps + 1) else (a, b, swaps))"

definition median :: "Event list \<Rightarrow> nat \<Rightarrow> nat \<Rightarrow> nat \<Rightarrow> nat \<Rightarrow> nat \<times> nat" where
  "median data a b c swaps =
     (let (a, b, swaps) = order2 data a b swaps;
          (b, c, swaps) = order2 data b c swaps;
          (a, b, swaps) = order2 data a b swaps
      in (b, swaps))"

definition medianAdjacent :: "Event list \<Rightarrow> nat \<Rightarrow> nat \<Rightarrow> nat \<times> nat" where
  "medianAdjacent data a swaps = median data (a - 1) a (a + 1) swaps"

definition choosePivot :: "Event list \<Rightarrow> nat \<times> sortedHint" where
  "choosePivot data =
     (let l = length data;
          i = l div 4 * 1;
          j = l div 4 * 2;
          k = l div 4 * 3;
          (j, swaps) =
            (if 8 \<le> l then
               (let (i, j, k, swaps) =
                      (if shortestNinther \<le> l then
                         (let (i, swaps) = medianAdjacent data i 0;
                              (j, swaps) = medianAdjacent data j swaps;
                              (k, swaps) = medianAdjacent data k swaps
                          in (i, j, k, swaps))
                       else (i, j, k, 0))
                in median data i j k swaps)
             else (j, 0))
      in (j, if swaps = 0 then increasingHint
             else if swaps = maxSwaps then decreasingHint
             else unknownHint))"

text \<open>
  The walk of \<open>partialInsertionSort\<close> reaches the end of the slice: no element is less
  than its left neighbour.
\<close>

fun inOrder :: "Event list \<Rightarrow> bool" where
  "inOrder (x # y # rest) = (\<not> Events_Less y x \<and> inOrder (y # rest))"
| "inOrder [x] = True"
| "inOrder [] = True"

text \<open>
  The insertion sort meets the contract of \<open>sort.Sort\<close>, so there are functions that
  do. The comparison is irreflexive and transitive, and so is its complement.
\<close>

lemma Less_irrefl: "\<not> Events_Less a a"
  by (simp add: Events_Less_def Time_Equal_def)

lemma Less_trans: "Events_Less a b \<Longrightarrow> Events_Less b c \<Longrightarrow> Events_Less a c"
  by (auto simp: Events_Less_def Time_Equal_def Time_Before_def split: if_splits)

lemma Less_neg_trans: "\<not> Events_Less a b \<Longrightarrow> \<not> Events_Less b c \<Longrightarrow> \<not> Events_Less a c"
  by (auto simp: Events_Less_def Time_Equal_def Time_Before_def split: if_splits)

lemma sink_Nil: "sink x [] = [x]"
  by (subst sink.simps) simp

lemma sink_snoc:
  "sink x (ys @ [y]) = (if Events_Less x y then sink x ys @ [y] else ys @ [y, x])"
  by (subst sink.simps) simp

lemma mset_sink: "mset (sink x ys) = add_mset x (mset ys)"
  by (induction ys rule: rev_induct) (simp_all add: sink_Nil sink_snoc)

lemma set_sink: "set (sink x ys) = insert x (set ys)"
  using mset_sink [of x ys] by (metis set_mset_add_mset_insert set_mset_mset)

lemma sorted_sink:
  "sorted_wrt (\<lambda>a b. \<not> Events_Less b a) ys \<Longrightarrow> sorted_wrt (\<lambda>a b. \<not> Events_Less b a) (sink x ys)"
proof (induction ys rule: rev_induct)
  case Nil
  then show ?case by (simp add: sink_Nil)
next
  case (snoc y ys)
  from snoc.prems have ys: "sorted_wrt (\<lambda>a b. \<not> Events_Less b a) ys"
    and le_y: "\<forall>z \<in> set ys. \<not> Events_Less y z"
    by (simp_all add: sorted_wrt_append)
  show ?case
  proof (cases "Events_Less x y")
    case True
    have "\<not> Events_Less y x"
      using True Less_trans Less_irrefl by blast
    with True snoc.IH [OF ys] le_y show ?thesis
      by (simp add: sink_snoc sorted_wrt_append set_sink)
  next
    case False
    have "\<forall>z \<in> set ys. \<not> Events_Less x z"
      using le_y False Less_neg_trans by blast
    with False ys le_y show ?thesis
      by (simp add: sink_snoc sorted_wrt_append)
  qed
qed

lemma sorted_insertionSort:
  "sorted_wrt (\<lambda>a b. \<not> Events_Less b a) front \<Longrightarrow>
   sorted_wrt (\<lambda>a b. \<not> Events_Less b a) (insertionSort front rest)"
  by (induction rest arbitrary: front) (simp_all add: sorted_sink)

lemma mset_insertionSort: "mset (insertionSort front rest) = mset front + mset rest"
  by (induction rest arbitrary: front) (simp_all add: mset_sink)

text \<open>
  The rest of \<open>pdqsort\<close> continues from the slice, the pivot and the hint that the
  first steps leave.
\<close>

typedef pdqsort_rest =
  "{f :: Event list \<Rightarrow> nat \<Rightarrow> sortedHint \<Rightarrow> Event list.
      \<forall>data pivot hint.
        sorted_wrt (\<lambda>a b. \<not> Events_Less b a) (f data pivot hint) \<and>
        mset (f data pivot hint) = mset data}"
  morphisms run_rest Abs_pdqsort_rest
  by (rule exI [of _ "\<lambda>data pivot hint. insertionSort [] data"])
     (simp add: sorted_insertionSort mset_insertionSort)

setup_lifting type_definition_pdqsort_rest

text \<open>
  \<open>sort.Sort\<close> calls \<open>pdqsort\<close> on the whole slice (\<open>a = 0\<close>, \<open>b = n\<close>, a limit of
  at least one) unless the slice has at most one element, which the insertion sort
  leaves as it is.
\<close>

definition sort_Sort :: "pdqsort_rest \<Rightarrow> Event list \<Rightarrow> Event list" where
  "sort_Sort rest data =
     (if length data \<le> maxInsertion then insertionSort [] data
      else (let (pivot, hint) = choosePivot data;
                (data, pivot, hint) =
                  (if hint = decreasingHint
                   then (rev data, (length data - 1) - pivot, increasingHint)
                   else (data, pivot, hint))
            in if hint = increasingHint \<and> inOrder data then data
               else run_rest rest data pivot hint))"

subsection \<open>Raw components, clients and the environment\<close>

text \<open>
  The go-ical structures as the code reads them: \<open>Params.Get\<close> gives the first value
  of a parameter or the empty string, \<open>Props.Get\<close> the first property of a name or
  nil.
\<close>

record ical_Prop =
  propValue :: string
  propParams :: "string \<Rightarrow> string list"

record ical_Component =
  compName :: string
  compProps :: "string \<Rightarrow> ical_Prop list"

record caldav_CalendarObject =
  objData :: "ical_Component list option"

definition Params_Get :: "ical_Prop \<Rightarrow> string \<Rightarrow> string" where
  "Params_Get prop name = (case propParams prop name of [] \<Rightarrow> [] | v # _ \<Rightarrow> v)"

definition Props_Get :: "ical_Component \<Rightarrow> string \<Rightarrow> ical_Prop option" where
  "Props_Get component name = (case compProps component name of [] \<Rightarrow> None | p # _ \<Rightarrow> Some p)"

record Client =
  calendarName :: string
  calendarColor :: string
  timezone :: time_Location

text \<open>
  What the code reaches outside the repository: the rest of \<open>pdqsort\<close>, the time
  zone database (\<open>time.LoadLocation\<close>), the rrule-go library and the CalDAV server. A recurrence
  rule is represented by what the code asks of it: the occurrences between two
  instants, both included, earliest first. \<open>None\<close> is the error of the call.
\<close>

type_synonym rrule_RRule = "Time \<Rightarrow> Time \<Rightarrow> Time list"

record Env =
  sort_pdqsort :: pdqsort_rest
  time_LoadLocation :: "string \<Rightarrow> time_Location option"
  rrule_StrToRRule :: "string \<Rightarrow> rrule_RRule option"
  caldav_QueryCalendar :: "Client \<Rightarrow> Time \<Rightarrow> Time \<Rightarrow> caldav_CalendarObject list option"

text \<open>
  An \<open>rrule.Set\<close> of one rule and exclusion dates: \<open>Between\<close> gives the rule's
  occurrences that equal no exclusion date as instants.
\<close>

definition rrule_Set_Between :: "rrule_RRule \<Rightarrow> Time list \<Rightarrow> Time \<Rightarrow> Time \<Rightarrow> Time list" where
  "rrule_Set_Between rule exdates after before =
     filter (\<lambda>occ. \<not> list_ex (\<lambda>x. Time_Equal occ x) exdates) (rule after before)"

datatype error =
  EventMissingUID | EventMissingDTSTART
  | FailedToParseDTSTART | FailedToParseDTEND | FailedToParseDURATION
  | NoRRULEFound | FailedToParseRRULE
  | InvalidDurationFormat | InvalidWeeks | InvalidDays | InvalidHours | InvalidMinutes
  | InvalidSeconds
  | UnableToParseDate | ParseError
  | CalendarObjectHasNoData | FailedToQueryCalendar

subsection \<open>Durations and dates (internal/caldav/recurring.go)\<close>

text \<open>The date part of \<open>parseDuration\<close>: weeks, else days, else nothing.\<close>

definition parseDuration_date :: "string \<Rightarrow> error + Duration" where
  "parseDuration_date datePart =
     (if strings_Contains datePart (CHR ''W'') then
        (case strconv_Atoi (strings_TrimSuffix datePart (CHR ''W'')) of
           None \<Rightarrow> Inl InvalidWeeks
         | Some weeks \<Rightarrow> Inr (i64 (0 + i64 (weeks * 7 * 24 * Hour))))
      else if strings_Contains datePart (CHR ''D'') then
        (case strconv_Atoi (strings_TrimSuffix datePart (CHR ''D'')) of
           None \<Rightarrow> Inl InvalidDays
         | Some days \<Rightarrow> Inr (i64 (0 + i64 (days * 24 * Hour))))
      else Inr 0)"

text \<open>
  One of the three blocks of the time part (hours, minutes, seconds): when the letter
  occurs, the text before its first occurrence must be an integer, and the remaining
  text starts after it.
\<close>

definition parseDuration_unit ::
  "char \<Rightarrow> Duration \<Rightarrow> error \<Rightarrow> string \<Rightarrow> Duration \<Rightarrow> error + (Duration \<times> string)" where
  "parseDuration_unit letter unit err remaining duration =
     (if strings_Contains remaining letter then
        (let idx = strings_Index remaining letter
         in case strconv_Atoi (take idx remaining) of
              None \<Rightarrow> Inl err
            | Some n \<Rightarrow> Inr (i64 (duration + i64 (n * unit)), drop (idx + 1) remaining))
      else Inr (duration, remaining))"

definition parseDuration_time :: "string \<Rightarrow> Duration \<Rightarrow> error + Duration" where
  "parseDuration_time timePart duration =
     (if timePart \<noteq> [] then
        (case parseDuration_unit (CHR ''H'') Hour InvalidHours timePart duration of
           Inl e \<Rightarrow> Inl e
         | Inr (duration, remaining) \<Rightarrow>
        (case parseDuration_unit (CHR ''M'') Minute InvalidMinutes remaining duration of
           Inl e \<Rightarrow> Inl e
         | Inr (duration, remaining) \<Rightarrow>
        (case parseDuration_unit (CHR ''S'') Second InvalidSeconds remaining duration of
           Inl e \<Rightarrow> Inl e
         | Inr (duration, remaining) \<Rightarrow> Inr duration)))
      else Inr duration)"

text \<open>The two parts in turn, and the sign.\<close>

definition parseDuration_parts :: "bool \<Rightarrow> string \<Rightarrow> string \<Rightarrow> error + Duration" where
  "parseDuration_parts negative datePart timePart =
     (case parseDuration_date datePart of
        Inl e \<Rightarrow> Inl e
      | Inr duration \<Rightarrow>
          (case parseDuration_time timePart duration of
             Inl e \<Rightarrow> Inl e
           | Inr duration \<Rightarrow> Inr (if negative then i64 (- duration) else duration)))"

definition parseDuration :: "string \<Rightarrow> error + Duration" where
  "parseDuration value =
     (if \<not> strings_HasPrefix value ''P'' \<and> \<not> strings_HasPrefix value ''-P''
      then Inl InvalidDurationFormat
      else
        (let negative = strings_HasPrefix value ''-'';
             value = (if negative then drop 2 value else drop 1 value);
             parts = strings_Split value (CHR ''T'');
             datePart = hd parts;
             timePart = (if 1 < length parts then parts ! 1 else [])
         in parseDuration_parts negative datePart timePart))"

text \<open>\<open>parseICalDate\<close>: the three formats in turn, each read in \<open>tz\<close>.\<close>

fun parseICalDate_formats :: "chunk list list \<Rightarrow> string \<Rightarrow> time_Location \<Rightarrow> error + Time" where
  "parseICalDate_formats [] v tz = Inl UnableToParseDate"
| "parseICalDate_formats (format # formats) v tz =
     (case time_ParseInLocation format v tz of
        Some t \<Rightarrow> Inr t
      | None \<Rightarrow> parseICalDate_formats formats v tz)"

definition parseICalDate :: "string \<Rightarrow> time_Location \<Rightarrow> error + Time" where
  "parseICalDate v tz =
     parseICalDate_formats
       [layout_20060102T150405Z, layout_20060102T150405, layout_20060102] v tz"

subsection \<open>Date-times and single events (internal/caldav/client.go)\<close>

definition parseDateTime :: "Client \<Rightarrow> Env \<Rightarrow> ical_Prop \<Rightarrow> error + (Time \<times> bool)" where
  "parseDateTime c env prop =
     (let valueType = Params_Get prop ''VALUE'';
          isDate = (valueType = ''DATE'')
      in if isDate then
           (case time_ParseInLocation layout_20060102 (propValue prop) (timezone c) of
              None \<Rightarrow> Inl ParseError
            | Some t \<Rightarrow> Inr (t, True))
         else
           (let tzid = Params_Get prop ''TZID''
            in if tzid \<noteq> [] then
                 (let loc = (case time_LoadLocation env tzid of
                               None \<Rightarrow> timezone c
                             | Some l \<Rightarrow> l)
                  in case time_ParseInLocation layout_20060102T150405 (propValue prop) loc of
                       Some t \<Rightarrow> Inr (Time_In t (timezone c), False)
                     | None \<Rightarrow>
                    (case time_ParseInLocation layout_20060102T150405Z (propValue prop) utcLoc of
                       None \<Rightarrow> Inl ParseError
                     | Some t \<Rightarrow> Inr (Time_In t (timezone c), False)))
               else
                 (let v = propValue prop
                  in case (if 0 < length v \<and> v ! (length v - 1) = CHR ''Z''
                           then time_Parse layout_20060102T150405Z v
                           else time_ParseInLocation layout_20060102T150405 v (timezone c)) of
                       None \<Rightarrow> Inl ParseError
                     | Some t \<Rightarrow> Inr (Time_In t (timezone c), False))))"

subsection \<open>Recurring series (\<open>expandRecurringEvent\<close>, internal/caldav/recurring.go)\<close>

text \<open>The loop over the exclusion entries: an entry that does not parse is skipped.\<close>

fun expand_exdates :: "string list \<Rightarrow> time_Location \<Rightarrow> Time list \<Rightarrow> Time list" where
  "expand_exdates [] tz exdates = exdates"
| "expand_exdates (exdateStr # rest) tz exdates =
     (case parseICalDate exdateStr tz of
        Inl e \<Rightarrow> expand_exdates rest tz exdates
      | Inr exdate \<Rightarrow> expand_exdates rest tz (exdates @ [exdate]))"

text \<open>The loop over the occurrences: one event for each occurrence the filter keeps.\<close>

fun expand_occurrences ::
  "Client \<Rightarrow> string \<Rightarrow> string \<Rightarrow> string \<Rightarrow> string \<Rightarrow> Duration \<Rightarrow> bool \<Rightarrow> Time \<Rightarrow> Time \<Rightarrow>
   Time list \<Rightarrow> Event list \<Rightarrow> Event list" where
  "expand_occurrences c uid summary description location duration allDay queryStart queryEnd
     [] events = events"
| "expand_occurrences c uid summary description location duration allDay queryStart queryEnd
     (occurrence # rest) events =
     (let occStart = Time_In occurrence (timezone c);
          occEnd = Time_Add occStart duration
      in if Time_Before occEnd queryStart \<or> Time_After occStart queryEnd
         then expand_occurrences c uid summary description location duration allDay
                queryStart queryEnd rest events
         else expand_occurrences c uid summary description location duration allDay
                queryStart queryEnd rest
                (events @
                 [\<lparr>UID = uid @ ''_'' @ Time_Format occStart layout_20060102T150405,
                    Summary = summary,
                    Description = description,
                    Location = location,
                    Start = occStart,
                    End = occEnd,
                    AllDay = allDay,
                    CalendarName = calendarName c,
                    CalendarColor = calendarColor c,
                    IsRecurring = True\<rparr>]))"

definition maxOccurrences :: nat where
  "maxOccurrences = 1000"

text \<open>
  The blocks of \<open>expandRecurringEvent\<close>: the text handed to the rule parser, the
  exclusion dates, and the occurrences of the buffered window, cut at \<open>maxOccurrences\<close>.
\<close>

definition expand_rruleStr :: "Time \<Rightarrow> bool \<Rightarrow> ical_Prop \<Rightarrow> string" where
  "expand_rruleStr startTime allDay rruleProp =
     (let dtstart = (if allDay then Time_Format startTime layout_20060102
                     else Time_Format (Time_UTC startTime) layout_20060102T150405Z)
      in ''DTSTART:'' @ dtstart @ [newline] @ ''RRULE:'' @ propValue rruleProp)"

definition expand_exdateList :: "Client \<Rightarrow> ical_Component \<Rightarrow> Time list" where
  "expand_exdateList c component =
     (case Props_Get component ''EXDATE'' of
        None \<Rightarrow> []
      | Some exdateProp \<Rightarrow>
          expand_exdates (strings_Split (propValue exdateProp) (CHR '','')) (timezone c) [])"

definition expand_candidates :: "rrule_RRule \<Rightarrow> Time list \<Rightarrow> Time \<Rightarrow> Time \<Rightarrow> Time list" where
  "expand_candidates rule exdates queryStart queryEnd =
     (let bufferStart = Time_Add queryStart (- 30 * 24 * Hour);
          bufferEnd = Time_Add queryEnd (30 * 24 * Hour);
          occurrences = rrule_Set_Between rule exdates bufferStart bufferEnd
      in if maxOccurrences < length occurrences
         then take maxOccurrences occurrences else occurrences)"

definition expandRecurringEvent ::
  "Client \<Rightarrow> Env \<Rightarrow> ical_Component \<Rightarrow> string \<Rightarrow> string \<Rightarrow> string \<Rightarrow> string \<Rightarrow>
   Time \<Rightarrow> Time \<Rightarrow> bool \<Rightarrow> Time \<Rightarrow> Time \<Rightarrow> error + Event list" where
  "expandRecurringEvent c env component uid summary description location
     startTime endTime allDay queryStart queryEnd =
     (case Props_Get component ''RRULE'' of
        None \<Rightarrow> Inl NoRRULEFound
      | Some rruleProp \<Rightarrow>
          (case rrule_StrToRRule env (expand_rruleStr startTime allDay rruleProp) of
             None \<Rightarrow> Inl FailedToParseRRULE
           | Some rule \<Rightarrow>
               (let exdates = expand_exdateList c component;
                    occurrences = expand_candidates rule exdates queryStart queryEnd;
                    duration = Time_Sub endTime startTime
                in Inr (expand_occurrences c uid summary description location duration
                          allDay queryStart queryEnd occurrences []))))"

subsection \<open>Events of a component, an object, a calendar (internal/caldav/client.go)\<close>

text \<open>The end of an event: the block of \<open>parseEvent\<close> after the start is known.\<close>

definition parseEvent_endTime ::
  "Client \<Rightarrow> Env \<Rightarrow> ical_Component \<Rightarrow> Time \<Rightarrow> bool \<Rightarrow> error + Time" where
  "parseEvent_endTime c env component startTime allDay =
     (case Props_Get component ''DTEND'' of
        Some dtend \<Rightarrow>
          (case parseDateTime c env dtend of
             Inl e \<Rightarrow> Inl FailedToParseDTEND
           | Inr (endTime, _) \<Rightarrow> Inr endTime)
      | None \<Rightarrow>
          (case Props_Get component ''DURATION'' of
             Some duration \<Rightarrow>
               (case parseDuration (propValue duration) of
                  Inl e \<Rightarrow> Inl FailedToParseDURATION
                | Inr dur \<Rightarrow> Inr (Time_Add startTime dur))
           | None \<Rightarrow>
               (if allDay then Inr (Time_Add startTime (24 * Hour))
                else Inr startTime)))"

definition parseEvent ::
  "Client \<Rightarrow> Env \<Rightarrow> ical_Component \<Rightarrow> Time \<Rightarrow> Time \<Rightarrow> error + Event list" where
  "parseEvent c env component queryStart queryEnd =
     (case Props_Get component ''UID'' of
        None \<Rightarrow> Inl EventMissingUID
      | Some uid \<Rightarrow>
     (let summary = (case Props_Get component ''SUMMARY'' of
                       None \<Rightarrow> [] | Some prop \<Rightarrow> unescapeICalText (propValue prop));
          description = (case Props_Get component ''DESCRIPTION'' of
                       None \<Rightarrow> [] | Some prop \<Rightarrow> unescapeICalText (propValue prop));
          location = (case Props_Get component ''LOCATION'' of
                       None \<Rightarrow> [] | Some prop \<Rightarrow> unescapeICalText (propValue prop))
      in case Props_Get component ''DTSTART'' of
           None \<Rightarrow> Inl EventMissingDTSTART
         | Some dtstart \<Rightarrow>
        (case parseDateTime c env dtstart of
           Inl e \<Rightarrow> Inl FailedToParseDTSTART
         | Inr (startTime, allDay) \<Rightarrow>
        (case parseEvent_endTime c env component startTime allDay of
           Inl e \<Rightarrow> Inl e
         | Inr endTime \<Rightarrow>
        (case Props_Get component ''RRULE'' of
           Some rrule \<Rightarrow>
             expandRecurringEvent c env component (propValue uid) summary description location
               startTime endTime allDay queryStart queryEnd
         | None \<Rightarrow>
             Inr [\<lparr>UID = propValue uid,
                   Summary = summary,
                   Description = description,
                   Location = location,
                   Start = startTime,
                   End = endTime,
                   AllDay = allDay,
                   CalendarName = calendarName c,
                   CalendarColor = calendarColor c,
                   IsRecurring = False\<rparr>])))))"

fun parseCalendarObject_children ::
  "Client \<Rightarrow> Env \<Rightarrow> Time \<Rightarrow> Time \<Rightarrow> ical_Component list \<Rightarrow> Event list \<Rightarrow> Event list" where
  "parseCalendarObject_children c env queryStart queryEnd [] events = events"
| "parseCalendarObject_children c env queryStart queryEnd (component # rest) events =
     (if compName component \<noteq> ''VEVENT''
      then parseCalendarObject_children c env queryStart queryEnd rest events
      else (case parseEvent c env component queryStart queryEnd of
              Inl e \<Rightarrow> parseCalendarObject_children c env queryStart queryEnd rest events
            | Inr event \<Rightarrow>
                parseCalendarObject_children c env queryStart queryEnd rest (events @ event)))"

definition parseCalendarObject ::
  "Client \<Rightarrow> Env \<Rightarrow> caldav_CalendarObject \<Rightarrow> Time \<Rightarrow> Time \<Rightarrow> error + Event list" where
  "parseCalendarObject c env obj queryStart queryEnd =
     (case objData obj of
        None \<Rightarrow> Inl CalendarObjectHasNoData
      | Some children \<Rightarrow>
          Inr (parseCalendarObject_children c env queryStart queryEnd children []))"

fun FetchEvents_objects ::
  "Client \<Rightarrow> Env \<Rightarrow> Time \<Rightarrow> Time \<Rightarrow> caldav_CalendarObject list \<Rightarrow> Event list \<Rightarrow> Event list" where
  "FetchEvents_objects c env start end [] events = events"
| "FetchEvents_objects c env start end (obj # rest) events =
     (case parseCalendarObject c env obj start end of
        Inl e \<Rightarrow> FetchEvents_objects c env start end rest events
      | Inr parsedEvents \<Rightarrow> FetchEvents_objects c env start end rest (events @ parsedEvents))"

definition FetchEvents :: "Client \<Rightarrow> Env \<Rightarrow> Time \<Rightarrow> Time \<Rightarrow> error + Event list" where
  "FetchEvents c env start end =
     (case caldav_QueryCalendar env c start end of
        None \<Rightarrow> Inl FailedToQueryCalendar
      | Some objects \<Rightarrow> Inr (sort_Sort (sort_pdqsort env) (FetchEvents_objects c env start end objects [])))"

subsection \<open>The HTTP handlers (internal/api/handler.go)\<close>

record Handler =
  clients :: "Client list"
  handler_timezone :: time_Location

datatype Response =
  StatusOK_events (response_events: "Event list")
  | StatusOK_days "int set"
  | StatusBadRequest
  | StatusInternalServerError

text \<open>
  The goroutines of a handler share \<open>allEvents\<close> and \<open>errs\<close> under one mutex, and the
  handler waits for all of them: the fetches take effect one after the other, in the
  order in which they take the lock. The list of clients below is read in that order;
  every statement about the handlers is made for every list.
\<close>

fun GetEvents_fetch ::
  "Env \<Rightarrow> Time \<Rightarrow> Time \<Rightarrow> Client list \<Rightarrow> Event list \<times> error list \<Rightarrow> Event list \<times> error list" where
  "GetEvents_fetch env start end [] (allEvents, errs) = (allEvents, errs)"
| "GetEvents_fetch env start end (c # rest) (allEvents, errs) =
     (case FetchEvents c env start end of
        Inl err \<Rightarrow> GetEvents_fetch env start end rest (allEvents, errs @ [err])
      | Inr events \<Rightarrow> GetEvents_fetch env start end rest (allEvents @ events, errs))"

text \<open>The window of \<open>GetEvents\<close>: the two dates, and a day added to the end.\<close>

definition GetEvents_window :: "Handler \<Rightarrow> string \<Rightarrow> string \<Rightarrow> (Time \<times> Time) option" where
  "GetEvents_window h startStr endStr =
     (if startStr = [] \<or> endStr = [] then None
      else (case time_ParseInLocation layout_2006_01_02 startStr (handler_timezone h) of
              None \<Rightarrow> None
            | Some start \<Rightarrow>
           (case time_ParseInLocation layout_2006_01_02 endStr (handler_timezone h) of
              None \<Rightarrow> None
            | Some end \<Rightarrow> Some (start, Time_Add end (24 * Hour)))))"

definition GetEvents :: "Handler \<Rightarrow> Env \<Rightarrow> string \<Rightarrow> string \<Rightarrow> Response" where
  "GetEvents h env startStr endStr =
     (case GetEvents_window h startStr endStr of
        None \<Rightarrow> StatusBadRequest
      | Some (start, end) \<Rightarrow>
          (let (allEvents, errs) = GetEvents_fetch env start end (clients h) ([], [])
           in if 0 < length errs \<and> length allEvents = 0 then StatusInternalServerError
              else StatusOK_events (sort_Sort (sort_pdqsort env) allEvents)))"

fun GetEventsMonth_fetch ::
  "Env \<Rightarrow> Time \<Rightarrow> Time \<Rightarrow> Client list \<Rightarrow> Event list \<Rightarrow> Event list" where
  "GetEventsMonth_fetch env start end [] allEvents = allEvents"
| "GetEventsMonth_fetch env start end (c # rest) allEvents =
     (case FetchEvents c env start end of
        Inl err \<Rightarrow> GetEventsMonth_fetch env start end rest allEvents
      | Inr events \<Rightarrow> GetEventsMonth_fetch env start end rest (allEvents @ events))"

text \<open>
  The inner loop of the day extraction: from the start of a timed event, in steps of 24
  hours, while the step is before the end of the event and in the requested month.
\<close>

function GetEventsMonth_span :: "int \<Rightarrow> Time \<Rightarrow> Time \<Rightarrow> int set \<Rightarrow> int set" where
  "GetEventsMonth_span month d eventEnd daysSet =
     (if Time_Before d eventEnd \<and> Time_Month d = month
      then GetEventsMonth_span month (Time_Add d (24 * Hour)) eventEnd
             (insert (Time_Day d) daysSet)
      else daysSet)"
  by pat_completeness auto
termination
  by (relation "measure (\<lambda>(month, d, eventEnd, daysSet). nat (unixNano eventEnd - unixNano d))")
     (auto simp: Time_Before_def Time_Add_def Hour_def Minute_def Second_def)

declare GetEventsMonth_span.simps [simp del]

fun GetEventsMonth_days :: "time_Location \<Rightarrow> int \<Rightarrow> Event list \<Rightarrow> int set \<Rightarrow> int set" where
  "GetEventsMonth_days tz month [] daysSet = daysSet"
| "GetEventsMonth_days tz month (event # rest) daysSet =
     (let day = Time_Day (Time_In (Start event) tz);
          daysSet = insert day daysSet
      in if \<not> AllDay event
         then (let eventEnd = Time_In (End event) tz
               in GetEventsMonth_days tz month rest
                    (GetEventsMonth_span month (Time_In (Start event) tz) eventEnd daysSet))
         else GetEventsMonth_days tz month rest daysSet)"

definition GetEventsMonth :: "Handler \<Rightarrow> Env \<Rightarrow> string \<Rightarrow> string \<Rightarrow> Response" where
  "GetEventsMonth h env yearStr monthStr =
     (if yearStr = [] \<or> monthStr = [] then StatusBadRequest
      else (case strconv_Atoi yearStr of
              None \<Rightarrow> StatusBadRequest
            | Some year \<Rightarrow>
           (case strconv_Atoi monthStr of
              None \<Rightarrow> StatusBadRequest
            | Some month \<Rightarrow>
                if month < 1 \<or> 12 < month then StatusBadRequest
                else (let start = time_Date year month 1 0 0 0 0 (handler_timezone h);
                          end = Time_AddDate start 0 1 0;
                          allEvents = GetEventsMonth_fetch env start end (clients h) []
                      in StatusOK_days
                           (GetEventsMonth_days (handler_timezone h) month allEvents {})))))"

subsection \<open>Predicates of the statements\<close>

text \<open>An event whose start and end are presented in the location \<open>tz\<close>.\<close>

definition in_zone :: "time_Location \<Rightarrow> Event \<Rightarrow> bool" where
  "in_zone tz e = (zone (Start e) = tz \<and> zone (End e) = tz)"

text \<open>
  The specification's test for an occurrence: its interval \<open>[occStart, occEnd)\<close>, or
  the instant \<open>occStart\<close> when the occurrence has no length, meets the half-open window
  \<open>[queryStart, queryEnd)\<close>.
\<close>

definition intersects_window :: "Time \<Rightarrow> Time \<Rightarrow> Time \<Rightarrow> Time \<Rightarrow> bool" where
  "intersects_window occStart occEnd queryStart queryEnd =
     (Time_Before occStart queryEnd \<and>
      (Time_Before queryStart occEnd \<or>
       (Time_Equal occStart occEnd \<and> \<not> Time_Before occStart queryStart)))"




























section \<open>Concrete inputs\<close>

text \<open>The inputs at which the statements below are evaluated.\<close>

definition instant :: "int \<Rightarrow> time_Location \<Rightarrow> Time" where
  "instant sec loc = \<lparr>unixNano = sec * 1000000000, zone = loc\<rparr>"

definition event_of :: "string \<Rightarrow> string \<Rightarrow> bool \<Rightarrow> Time \<Rightarrow> Time \<Rightarrow> Event" where
  "event_of uid summary allDay start end =
     \<lparr>UID = uid, Summary = summary, Description = [], Location = [],
      Start = start, End = end, AllDay = allDay,
      CalendarName = ''Personal'', CalendarColor = ''#BBCCDD'', IsRecurring = False\<rparr>"

text \<open>Timed events of half an hour that start at the hours given, on 1970-01-01.\<close>

definition hourly :: "int list \<Rightarrow> Event list" where
  "hourly hours =
     map (\<lambda>h. event_of ''hourly'' ''Hourly'' False
                (instant (h * 3600) utcLoc) (instant (h * 3600 + 1800) utcLoc)) hours"

text \<open>
  Europe/Rome in 2026: one hour east of UTC, two hours from 2026-03-29T01:00:00Z to
  2026-10-25T01:00:00Z.
\<close>

definition rome :: time_Location where
  "rome = Zone ''Europe/Rome'' 3600 [(1774746000, 7200), (1792890000, 3600)]"

definition client_rome :: Client where
  "client_rome = \<lparr>calendarName = ''Personal'', calendarColor = ''#BBCCDD'', timezone = rome\<rparr>"

definition prop_of :: "string \<Rightarrow> (string \<times> string) list \<Rightarrow> ical_Prop" where
  "prop_of v params =
     \<lparr>propValue = v, propParams = (\<lambda>name. map snd (filter (\<lambda>kv. fst kv = name) params))\<rparr>"

definition vevent :: "(string \<times> ical_Prop) list \<Rightarrow> ical_Component" where
  "vevent props =
     \<lparr>compName = ''VEVENT'',
      compProps = (\<lambda>name. map snd (filter (\<lambda>kv. fst kv = name) props))\<rparr>"

text \<open>A rule of \<open>n\<close> weekly occurrences from the Unix second \<open>first\<close>.\<close>

definition weekly :: "int \<Rightarrow> nat \<Rightarrow> rrule_RRule" where
  "weekly first n after before =
     filter (\<lambda>t. \<not> Time_Before t after \<and> \<not> Time_After t before)
       (map (\<lambda>k. instant (first + int k * 604800) utcLoc) [0..<n])"

lift_definition insertion_rest :: pdqsort_rest is "\<lambda>data pivot hint. insertionSort [] data"
  by (simp add: sorted_insertionSort mset_insertionSort)

text \<open>
  An environment in which the rest of \<open>pdqsort\<close> is the insertion sort (one function
  within the contract, which is stable where Go's is not; on slices of up to twelve
  events, and on longer ones that are in order, it is not reached), that knows
  the zone of Rome, two weekly rules of three occurrences
  (anchored at 2026-01-05T08:00:00Z and at 2026-01-04T23:00:00Z) and a server that
  answers every query with the object given.
\<close>

definition env_of :: "caldav_CalendarObject list option \<Rightarrow> Env" where
  "env_of answer =
     \<lparr>sort_pdqsort = insertion_rest,
      time_LoadLocation = (\<lambda>name. if name = ''Europe/Rome'' then Some rome else None),
      rrule_StrToRRule =
        (\<lambda>s. if s = ''DTSTART:20260105T080000Z'' @ [newline] @ ''RRULE:FREQ=WEEKLY;COUNT=3''
               then Some (weekly 1767600000 3)
             else if s = ''DTSTART:20260104T230000Z'' @ [newline] @ ''RRULE:FREQ=WEEKLY;COUNT=3''
               then Some (weekly 1767567600 3)
             else None),
      caldav_QueryCalendar = (\<lambda>c start end. answer)\<rparr>"

text \<open>
  The weekly stand-up of the specification: 09:00 in Rome from 2026-01-05, three
  occurrences, no end; with the exclusion of the second occurrence written as a UTC
  value. A single meeting with a zone of its own. The window is January 2026.
\<close>

definition standup :: ical_Component where
  "standup = vevent
     [(''UID'', prop_of ''standup'' []),
      (''SUMMARY'', prop_of ''Standup'' []),
      (''DTSTART'', prop_of ''20260105T090000'' []),
      (''RRULE'', prop_of ''FREQ=WEEKLY;COUNT=3'' []),
      (''EXDATE'', prop_of ''20260112T080000Z'' [])]"

definition meeting :: ical_Component where
  "meeting = vevent
     [(''UID'', prop_of ''meeting'' []),
      (''SUMMARY'', prop_of ''Review'' []),
      (''DTSTART'', prop_of ''20260120T140000'' [(''TZID'', ''Europe/Rome'')]),
      (''DURATION'', prop_of ''PT1H30M'' [])]"

definition january_start :: Time where
  "january_start = instant 1767222000 rome"

definition january_end :: Time where
  "january_end = instant 1769900400 rome"

definition january_objects :: "caldav_CalendarObject list" where
  "january_objects = [\<lparr>objData = Some [standup, meeting]\<rparr>]"

definition handler_rome :: Handler where
  "handler_rome = \<lparr>clients = [client_rome], handler_timezone = rome\<rparr>"

text \<open>
  An all-day event on 2026-03-29, the day on which Rome moves its clocks forward, with
  neither end nor duration.
\<close>

definition allday :: ical_Component where
  "allday = vevent
     [(''UID'', prop_of ''allday'' []),
      (''SUMMARY'', prop_of ''Holiday'' []),
      (''DTSTART'', prop_of ''20260329'' [(''VALUE'', ''DATE'')])]"

text \<open>
  A timed event from 23:00 on 2026-01-31 to 01:00 on 2026-02-01 in Rome, as a server
  returns it for the window of February 2026, which it overlaps.
\<close>

definition overnight :: ical_Component where
  "overnight = vevent
     [(''UID'', prop_of ''overnight'' []),
      (''SUMMARY'', prop_of ''Night shift'' []),
      (''DTSTART'', prop_of ''20260131T230000'' []),
      (''DTEND'', prop_of ''20260201T010000'' [])]"

definition february_objects :: "caldav_CalendarObject list" where
  "february_objects = [\<lparr>objData = Some [overnight]\<rparr>]"

text \<open>
  Two sources: the server of the first one cannot be reached, the server of the second
  one answers and has no event in the window.
\<close>

definition client_birthdays :: Client where
  "client_birthdays =
     \<lparr>calendarName = ''Birthdays'', calendarColor = ''#AABBCC'', timezone = rome\<rparr>"

definition handler_two :: Handler where
  "handler_two = \<lparr>clients = [client_birthdays, client_rome], handler_timezone = rome\<rparr>"

definition env_one_down :: Env where
  "env_one_down =
     (env_of None)\<lparr>caldav_QueryCalendar :=
        (\<lambda>c start end. if calendarName c = ''Birthdays'' then None else Some [])\<rparr>"

text \<open>
  A weekly series of one hour at 00:00 in Rome from 2026-01-05, three occurrences, and
  the window of \<open>start=2026-01-01\<close>, \<open>end=2026-01-11\<close>: from 00:00 on 2026-01-01 to
  00:00 on 2026-01-12, the instant at which the second occurrence starts.
\<close>

definition midnight :: ical_Component where
  "midnight = vevent
     [(''UID'', prop_of ''midnight'' []),
      (''SUMMARY'', prop_of ''Backup'' []),
      (''DTSTART'', prop_of ''20260105T000000'' []),
      (''DTEND'', prop_of ''20260105T010000'' []),
      (''RRULE'', prop_of ''FREQ=WEEKLY;COUNT=3'' [])]"

definition eleven_days_end :: Time where
  "eleven_days_end = instant 1768172400 rome"

definition midnight_objects :: "caldav_CalendarObject list" where
  "midnight_objects = [\<lparr>objData = Some [midnight]\<rparr>]"

section \<open>Properties\<close>

subsection \<open>Text decoding\<close>

text \<open>One step of the loop, for each branch of the source.\<close>

lemma step_end: "\<not> i < length s \<Longrightarrow> unescape_loop s i r = r"
  by (subst unescape_loop.simps) simp

lemma step_plain:
  "i < length s \<Longrightarrow> \<not> (s ! i = backslash \<and> i + 1 < length s) \<Longrightarrow>
   unescape_loop s i r = unescape_loop s (i + 1) (r @ [s ! i])"
  by (subst unescape_loop.simps) auto

lemma step_lit:
  "i < length s \<Longrightarrow> s ! i = backslash \<and> i + 1 < length s \<Longrightarrow>
   s ! (i + 1) = CHR '','' \<or> s ! (i + 1) = CHR '';'' \<or> s ! (i + 1) = backslash \<Longrightarrow>
   unescape_loop s i r = unescape_loop s (i + 2) (r @ [s ! (i + 1)])"
  by (subst unescape_loop.simps) (simp add: Let_def)

lemma step_nl:
  "i < length s \<Longrightarrow> s ! i = backslash \<and> i + 1 < length s \<Longrightarrow>
   \<not> (s ! (i + 1) = CHR '','' \<or> s ! (i + 1) = CHR '';'' \<or> s ! (i + 1) = backslash) \<Longrightarrow>
   s ! (i + 1) = CHR ''n'' \<or> s ! (i + 1) = CHR ''N'' \<Longrightarrow>
   unescape_loop s i r = unescape_loop s (i + 2) (r @ [newline])"
  by (subst unescape_loop.simps) (simp add: Let_def)

lemma step_other:
  "i < length s \<Longrightarrow> s ! i = backslash \<and> i + 1 < length s \<Longrightarrow>
   \<not> (s ! (i + 1) = CHR '','' \<or> s ! (i + 1) = CHR '';'' \<or> s ! (i + 1) = backslash) \<Longrightarrow>
   \<not> (s ! (i + 1) = CHR ''n'' \<or> s ! (i + 1) = CHR ''N'') \<Longrightarrow>
   unescape_loop s i r = unescape_loop s (i + 1) (r @ [backslash])"
  by (subst unescape_loop.simps) (simp add: Let_def)

text \<open>The builder only grows: what it holds already stays in front.\<close>

lemma unescape_loop_acc:
  "unescape_loop s i (a @ r) = a @ unescape_loop s i r"
proof (induction s i r arbitrary: a rule: unescape_loop.induct)
  case (1 s i result)
  show ?case
  proof (cases "i < length s")
    case False
    then show ?thesis by (simp add: step_end)
  next
    case lt: True
    show ?thesis
    proof (cases "s ! i = backslash \<and> i + 1 < length s")
      case False
      show ?thesis
        using "1.IH"(4) [OF lt False, of a]
        by (simp only: step_plain [OF lt False] append_assoc)
    next
      case esc: True
      consider (lit) "s ! (i + 1) = CHR '','' \<or> s ! (i + 1) = CHR '';'' \<or> s ! (i + 1) = backslash"
        | (nl) "\<not> (s ! (i + 1) = CHR '','' \<or> s ! (i + 1) = CHR '';'' \<or> s ! (i + 1) = backslash)"
               "s ! (i + 1) = CHR ''n'' \<or> s ! (i + 1) = CHR ''N''"
        | (other) "\<not> (s ! (i + 1) = CHR '','' \<or> s ! (i + 1) = CHR '';'' \<or> s ! (i + 1) = backslash)"
               "\<not> (s ! (i + 1) = CHR ''n'' \<or> s ! (i + 1) = CHR ''N'')"
        by blast
      then show ?thesis
      proof cases
        case lit
        show ?thesis
          using "1.IH"(1) [OF lt esc refl lit, of a]
          by (simp only: step_lit [OF lt esc lit] append_assoc)
      next
        case nl
        show ?thesis
          using "1.IH"(2) [OF lt esc refl nl, of a]
          by (simp only: step_nl [OF lt esc nl] append_assoc)
      next
        case other
        show ?thesis
          using "1.IH"(3) [OF lt esc refl other, of a]
          by (simp only: step_other [OF lt esc other] append_assoc)
      qed
    qed
  qed
qed

text \<open>The loop at index \<open>i + 1\<close> of \<open>c # s\<close> is the loop at index \<open>i\<close> of \<open>s\<close>.\<close>

lemma unescape_loop_Cons:
  "unescape_loop (c # s) (Suc i) r = unescape_loop s i r"
proof (induction s i r rule: unescape_loop.induct)
  case (1 s i result)
  show ?case
  proof (cases "i < length s")
    case False
    then show ?thesis by (simp add: step_end)
  next
    case lt: True
    have lt': "Suc i < length (c # s)" using lt by simp
    show ?thesis
    proof (cases "s ! i = backslash \<and> i + 1 < length s")
      case False
      have F': "\<not> ((c # s) ! Suc i = backslash \<and> Suc i + 1 < length (c # s))"
        using False by simp
      show ?thesis
        using "1.IH"(4) [OF lt False]
        by (simp add: step_plain [OF lt False] step_plain [OF lt' F'])
    next
      case esc: True
      have esc': "(c # s) ! Suc i = backslash \<and> Suc i + 1 < length (c # s)"
        using esc by simp
      consider (lit) "s ! (i + 1) = CHR '','' \<or> s ! (i + 1) = CHR '';'' \<or> s ! (i + 1) = backslash"
        | (nl) "\<not> (s ! (i + 1) = CHR '','' \<or> s ! (i + 1) = CHR '';'' \<or> s ! (i + 1) = backslash)"
               "s ! (i + 1) = CHR ''n'' \<or> s ! (i + 1) = CHR ''N''"
        | (other) "\<not> (s ! (i + 1) = CHR '','' \<or> s ! (i + 1) = CHR '';'' \<or> s ! (i + 1) = backslash)"
               "\<not> (s ! (i + 1) = CHR ''n'' \<or> s ! (i + 1) = CHR ''N'')"
        by blast
      then show ?thesis
      proof cases
        case lit
        have lit': "(c # s) ! (Suc i + 1) = CHR '','' \<or> (c # s) ! (Suc i + 1) = CHR '';''
                    \<or> (c # s) ! (Suc i + 1) = backslash"
          using lit by simp
        show ?thesis
          using "1.IH"(1) [OF lt esc refl lit]
          by (simp add: step_lit [OF lt esc lit] step_lit [OF lt' esc' lit'])
      next
        case nl
        have nl': "\<not> ((c # s) ! (Suc i + 1) = CHR '','' \<or> (c # s) ! (Suc i + 1) = CHR '';''
                    \<or> (c # s) ! (Suc i + 1) = backslash)"
             "(c # s) ! (Suc i + 1) = CHR ''n'' \<or> (c # s) ! (Suc i + 1) = CHR ''N''"
          using nl by simp_all
        show ?thesis
          using "1.IH"(2) [OF lt esc refl nl]
          by (simp add: step_nl [OF lt esc nl] step_nl [OF lt' esc' nl'])
      next
        case other
        have other': "\<not> ((c # s) ! (Suc i + 1) = CHR '','' \<or> (c # s) ! (Suc i + 1) = CHR '';''
                    \<or> (c # s) ! (Suc i + 1) = backslash)"
             "\<not> ((c # s) ! (Suc i + 1) = CHR ''n'' \<or> (c # s) ! (Suc i + 1) = CHR ''N'')"
          using other by simp_all
        show ?thesis
          using "1.IH"(3) [OF lt esc refl other]
          by (simp add: step_other [OF lt esc other] step_other [OF lt' esc' other'])
      qed
    qed
  qed
qed

lemma unescape_loop_acc_Nil: "unescape_loop s i r = r @ unescape_loop s i []"
  using unescape_loop_acc [of s i r "[]"] by simp

lemma unescape_Nil: "unescapeICalText [] = []"
  by (simp add: unescapeICalText_def step_end)

lemma unescape_plain:
  assumes "c \<noteq> backslash"
  shows "unescapeICalText (c # rest) = c # unescapeICalText rest"
proof -
  have "unescape_loop (c # rest) 0 [] = unescape_loop (c # rest) (0 + 1) ([] @ [(c # rest) ! 0])"
    by (rule step_plain) (use assms in simp_all)
  also have "\<dots> = [c] @ unescape_loop (c # rest) (Suc 0) []"
    using unescape_loop_acc_Nil [of "c # rest" "Suc 0" "[c]"] by simp
  finally show ?thesis
    by (simp add: unescapeICalText_def unescape_loop_Cons)
qed

lemma unescape_last: "unescapeICalText [backslash] = [backslash]"
proof -
  have "unescape_loop [backslash] 0 [] = unescape_loop [backslash] (0 + 1) ([] @ [[backslash] ! 0])"
    by (rule step_plain) simp_all
  then show ?thesis
    by (simp add: unescapeICalText_def step_end)
qed

lemma unescape_lit:
  assumes "n = CHR '','' \<or> n = CHR '';'' \<or> n = backslash"
  shows "unescapeICalText (backslash # n # rest) = n # unescapeICalText rest"
proof -
  let ?s = "backslash # n # rest"
  have "unescape_loop ?s 0 [] = unescape_loop ?s (0 + 2) ([] @ [?s ! (0 + 1)])"
    by (rule step_lit) (use assms in simp_all)
  also have "\<dots> = [n] @ unescape_loop ?s (Suc (Suc 0)) []"
    using unescape_loop_acc_Nil [of ?s "Suc (Suc 0)" "[n]"] by (simp add: numeral_2_eq_2)
  finally show ?thesis
    by (simp add: unescapeICalText_def unescape_loop_Cons)
qed

lemma unescape_nl:
  assumes "n = CHR ''n'' \<or> n = CHR ''N''"
  shows "unescapeICalText (backslash # n # rest) = newline # unescapeICalText rest"
proof -
  let ?s = "backslash # n # rest"
  have "unescape_loop ?s 0 [] = unescape_loop ?s (0 + 2) ([] @ [newline])"
    by (rule step_nl) (use assms in \<open>auto simp: backslash_def\<close>)
  also have "\<dots> = [newline] @ unescape_loop ?s (Suc (Suc 0)) []"
    using unescape_loop_acc_Nil [of ?s "Suc (Suc 0)" "[newline]"] by (simp add: numeral_2_eq_2)
  finally show ?thesis
    by (simp add: unescapeICalText_def unescape_loop_Cons)
qed

lemma unescape_other:
  assumes "n \<noteq> CHR '',''" "n \<noteq> CHR '';''" "n \<noteq> backslash" "n \<noteq> CHR ''n''" "n \<noteq> CHR ''N''"
  shows "unescapeICalText (backslash # n # rest) = backslash # unescapeICalText (n # rest)"
proof -
  let ?s = "backslash # n # rest"
  have "unescape_loop ?s 0 [] = unescape_loop ?s (0 + 1) ([] @ [backslash])"
    by (rule step_other) (use assms in simp_all)
  also have "\<dots> = [backslash] @ unescape_loop ?s (Suc 0) []"
    using unescape_loop_acc_Nil [of ?s "Suc 0" "[backslash]"] by simp
  finally show ?thesis
    by (simp add: unescapeICalText_def unescape_loop_Cons)
qed

lemma unescape_no_backslash:
  "backslash \<notin> set s \<Longrightarrow> unescapeICalText (s @ [backslash]) = s @ [backslash]"
  by (induction s) (auto simp: unescape_last unescape_plain)

text \<open>
  Claim C8. \<open>unescapeICalText\<close> is defined on every string (its loop terminates) and
  is the single left-to-right scan of the specification: the empty string decodes to
  itself; a byte other than the backslash is copied; a backslash before a comma, a
  semicolon or a backslash emits that byte and consumes both; a backslash before
  \<open>n\<close> or \<open>N\<close> emits a newline and consumes both; a backslash before any other byte
  emits the backslash and leaves that byte to the next step; a backslash at the end of
  the string is emitted as it is, so a string that ends in a lone backslash decodes to
  itself when it has no other backslash.
\<close>

theorem unescapeICalText_scan:
  "unescapeICalText [] = [] \<and>
   (\<forall>c rest. c \<noteq> backslash \<longrightarrow> unescapeICalText (c # rest) = c # unescapeICalText rest) \<and>
   (\<forall>n rest. n = CHR '','' \<or> n = CHR '';'' \<or> n = backslash \<longrightarrow>
      unescapeICalText (backslash # n # rest) = n # unescapeICalText rest) \<and>
   (\<forall>n rest. n = CHR ''n'' \<or> n = CHR ''N'' \<longrightarrow>
      unescapeICalText (backslash # n # rest) = newline # unescapeICalText rest) \<and>
   (\<forall>n rest. n \<noteq> CHR '','' \<and> n \<noteq> CHR '';'' \<and> n \<noteq> backslash \<and> n \<noteq> CHR ''n'' \<and> n \<noteq> CHR ''N'' \<longrightarrow>
      unescapeICalText (backslash # n # rest) = backslash # unescapeICalText (n # rest)) \<and>
   unescapeICalText [backslash] = [backslash] \<and>
   (\<forall>s. backslash \<notin> set s \<longrightarrow> unescapeICalText (s @ [backslash]) = s @ [backslash])"
  by (intro conjI allI impI)
     (simp_all add: unescape_Nil unescape_plain unescape_lit unescape_nl unescape_other
        unescape_last unescape_no_backslash)

text \<open>
  The scenario of the specification, with an unknown escape and a final lone backslash
  added: \<open>Meeting\, with Bob\nfollow\-up\\<close>.
\<close>

theorem unescapeICalText_scan_witness:
  "unescapeICalText (''Meeting'' @ [backslash] @ '', with Bob'' @ [backslash] @ ''nfollow'' @
       [backslash] @ ''-up'' @ [backslash])
   = ''Meeting, with Bob'' @ [newline] @ ''follow'' @ [backslash] @ ''-up'' @ [backslash]"
proof -
  note T = unescapeICalText_scan [unfolded backslash_def newline_def]
  note plain = T [THEN conjunct2, THEN conjunct1, rule_format]
  note lit = T [THEN conjunct2, THEN conjunct2, THEN conjunct1, rule_format]
  note nl = T [THEN conjunct2, THEN conjunct2, THEN conjunct2, THEN conjunct1, rule_format]
  note other = T [THEN conjunct2, THEN conjunct2, THEN conjunct2, THEN conjunct2,
      THEN conjunct1, rule_format]
  note last = T [THEN conjunct2, THEN conjunct2, THEN conjunct2, THEN conjunct2,
      THEN conjunct2, THEN conjunct1]
  show ?thesis
    by (simp add: backslash_def newline_def plain lit nl other last)
qed

subsection \<open>Ordering\<close>

lemma sink_in_order:
  "ys = [] \<or> \<not> Events_Less x (last ys) \<Longrightarrow> sink x ys = ys @ [x]"
  by (subst sink.simps) auto

lemma insertionSort_in_order:
  "sorted_wrt (\<lambda>a b. \<not> Events_Less b a) (front @ rest) \<Longrightarrow> insertionSort front rest = front @ rest"
proof (induction rest arbitrary: front)
  case Nil
  then show ?case by simp
next
  case (Cons x rest)
  have "front = [] \<or> \<not> Events_Less x (last front)"
    using Cons.prems by (cases front rule: rev_cases) (auto simp: sorted_wrt_append)
  then have "sink x front = front @ [x]"
    by (rule sink_in_order)
  with Cons.IH [of "front @ [x]"] Cons.prems show ?case
    by simp
qed

lemma inOrder_sorted: "inOrder xs \<longleftrightarrow> sorted_wrt (\<lambda>a b. \<not> Events_Less b a) xs"
proof (induction xs rule: inOrder.induct)
  case (1 x y rest)
  have "\<forall>z \<in> set rest. \<not> Events_Less z x"
    if "\<not> Events_Less y x" and "\<forall>z \<in> set rest. \<not> Events_Less z y"
    using that Less_neg_trans by blast
  with 1 show ?case
    by auto
qed simp_all

lemma ordered_nth:
  assumes "sorted_wrt (\<lambda>a b. \<not> Events_Less b a) data" and "a < b" and "b < length data"
  shows "\<not> Events_Less (data ! b) (data ! a)"
  using sorted_wrt_nth_less [OF assms] .

lemma median_ordered:
  assumes "sorted_wrt (\<lambda>a b. \<not> Events_Less b a) data"
    and "a < b" and "b < c" and "c < length data"
  shows "median data a b c swaps = (b, swaps)"
proof -
  have "\<not> Events_Less (data ! b) (data ! a)" "\<not> Events_Less (data ! c) (data ! b)"
    using assms by (simp_all add: ordered_nth)
  then show ?thesis
    by (simp add: median_def order2_def)
qed

lemma medianAdjacent_ordered:
  assumes "sorted_wrt (\<lambda>a b. \<not> Events_Less b a) data" and "0 < a" and "a + 1 < length data"
  shows "medianAdjacent data a swaps = (a, swaps)"
  using median_ordered [OF assms(1), of "a - 1" a "a + 1" swaps] assms(2,3)
  by (simp add: medianAdjacent_def)

lemma choosePivot_ordered:
  assumes s: "sorted_wrt (\<lambda>a b. \<not> Events_Less b a) data" and l: "maxInsertion < length data"
  shows "choosePivot data = (length data div 4 * 2, increasingHint)"
proof -
  define q where "q = length data div 4"
  have q: "3 \<le> q" "q * 3 + 1 < length data"
    using l by (simp_all add: q_def maxInsertion_def)
  have i: "medianAdjacent data q swaps = (q, swaps)" for swaps
    using q by (intro medianAdjacent_ordered [OF s]) simp_all
  have j: "medianAdjacent data (q * 2) swaps = (q * 2, swaps)" for swaps
    using q by (intro medianAdjacent_ordered [OF s]) simp_all
  have k: "medianAdjacent data (q * 3) swaps = (q * 3, swaps)" for swaps
    using q by (intro medianAdjacent_ordered [OF s]) simp_all
  have m: "median data q (q * 2) (q * 3) swaps = (q * 2, swaps)" for swaps
    using q by (intro median_ordered [OF s]) simp_all
  have "8 \<le> length data"
    using l by (simp add: maxInsertion_def)
  then show ?thesis
    by (simp add: choosePivot_def Let_def q_def [symmetric] i j k m)
qed

lemma sort_Sort_sorted: "sorted_wrt (\<lambda>a b. \<not> Events_Less b a) (sort_Sort rest events)"
  using run_rest [of rest]
  by (auto simp: sort_Sort_def sorted_insertionSort inOrder_sorted Let_def split: prod.splits)

lemma sort_Sort_mset: "mset (sort_Sort rest events) = mset events"
  using run_rest [of rest]
  by (auto simp: sort_Sort_def mset_insertionSort Let_def split: prod.splits if_splits)

lemma sort_Sort_in_order:
  assumes "sorted_wrt (\<lambda>a b. \<not> Events_Less b a) events"
  shows "sort_Sort rest events = events"
proof (cases "length events \<le> maxInsertion")
  case True
  then show ?thesis
    using insertionSort_in_order [of "[]" events] assms by (simp add: sort_Sort_def)
next
  case False
  then have "choosePivot events = (length events div 4 * 2, increasingHint)"
    using choosePivot_ordered [OF assms] by simp
  with False assms show ?thesis
    by (simp add: sort_Sort_def inOrder_sorted)
qed

lemma sort_Sort_idem: "sort_Sort rest (sort_Sort rest events) = sort_Sort rest events"
  by (rule sort_Sort_in_order) (rule sort_Sort_sorted)

text \<open>
  Claim C7. \<open>Events.Less\<close> puts an all-day event before a timed one, within one
  category the event with the earlier start instant first, and of two events with the
  same start instant the one with the smaller summary first. This comparison is a
  strict weak ordering of all events: it is irreflexive and transitive, and
  incomparability is transitive. \<open>sort.Sort\<close> with it, whatever the rest of
  \<open>pdqsort\<close> does within its contract, gives a list in that order with the same
  events, and sorting a second time changes nothing.
\<close>

theorem Events_Less_strict_weak_order:
  "(\<forall>a b. Events_Less a b \<longleftrightarrow>
      (AllDay a \<and> \<not> AllDay b) \<or>
      (AllDay a = AllDay b \<and>
       (unixNano (Start a) < unixNano (Start b) \<or>
        (unixNano (Start a) = unixNano (Start b) \<and> Summary a < Summary b)))) \<and>
   (\<forall>a. \<not> Events_Less a a) \<and>
   (\<forall>a b c. Events_Less a b \<and> Events_Less b c \<longrightarrow> Events_Less a c) \<and>
   (\<forall>a b c. (\<not> Events_Less a b \<and> \<not> Events_Less b a) \<and> (\<not> Events_Less b c \<and> \<not> Events_Less c b)
      \<longrightarrow> \<not> Events_Less a c \<and> \<not> Events_Less c a) \<and>
   (\<forall>rest events. sorted_wrt (\<lambda>a b. \<not> Events_Less b a) (sort_Sort rest events) \<and>
      mset (sort_Sort rest events) = mset events \<and>
      sort_Sort rest (sort_Sort rest events) = sort_Sort rest events)"
proof (intro conjI allI impI)
  fix a b
  show "Events_Less a b \<longleftrightarrow>
      (AllDay a \<and> \<not> AllDay b) \<or>
      (AllDay a = AllDay b \<and>
       (unixNano (Start a) < unixNano (Start b) \<or>
        (unixNano (Start a) = unixNano (Start b) \<and> Summary a < Summary b)))"
    by (auto simp: Events_Less_def Time_Equal_def Time_Before_def)
next
  fix a show "\<not> Events_Less a a" by (rule Less_irrefl)
next
  fix a b c assume "Events_Less a b \<and> Events_Less b c"
  then show "Events_Less a c" using Less_trans by blast
next
  fix a b c
  assume h: "(\<not> Events_Less a b \<and> \<not> Events_Less b a) \<and> (\<not> Events_Less b c \<and> \<not> Events_Less c b)"
  then show "\<not> Events_Less a c" using Less_neg_trans by blast
  from h show "\<not> Events_Less c a" using Less_neg_trans by blast
next
  fix rest events
  show "sorted_wrt (\<lambda>a b. \<not> Events_Less b a) (sort_Sort rest events)" by (rule sort_Sort_sorted)
  show "mset (sort_Sort rest events) = mset events" by (rule sort_Sort_mset)
  show "sort_Sort rest (sort_Sort rest events) = sort_Sort rest events" by (rule sort_Sort_idem)
qed

text \<open>
  An all-day event, two timed events with the same start and the summaries \<open>a\<close> and
  \<open>b\<close>, and a timed event that starts earlier than both, with the summary \<open>z\<close>: in
  ascending order the all-day event, the early one, \<open>a\<close>, \<open>b\<close>. Three events that
  differ in their identifier only are incomparable. Four events are sorted by
  insertion. Thirteen events in descending order of their start are found neither
  ascending nor descending by \<open>choosePivot\<close> (three pairs out of order, not twelve)
  and go to the rest of \<open>pdqsort\<close>; their starts differ, so there is one list in
  order with these events, whatever the rest does. That list a second run leaves as it
  is.
\<close>

theorem Events_Less_strict_weak_order_witness:
  "Events_Less (event_of ''6'' ''z'' False (instant 30 utcLoc) (instant 90 utcLoc))
               (event_of ''2'' ''a'' False (instant 60 utcLoc) (instant 60 utcLoc)) \<and>
   \<not> Events_Less (event_of ''2'' ''a'' False (instant 60 utcLoc) (instant 60 utcLoc))
                 (event_of ''6'' ''z'' False (instant 30 utcLoc) (instant 90 utcLoc)) \<and>
   (Events_Less (event_of ''1'' ''z'' True (instant 90 utcLoc) (instant 90 utcLoc))
               (event_of ''6'' ''z'' False (instant 30 utcLoc) (instant 90 utcLoc)) \<and>
    Events_Less (event_of ''2'' ''a'' False (instant 60 utcLoc) (instant 60 utcLoc))
               (event_of ''3'' ''b'' False (instant 60 utcLoc) (instant 70 utcLoc))) \<and>
   Events_Less (event_of ''1'' ''z'' True (instant 90 utcLoc) (instant 90 utcLoc))
               (event_of ''3'' ''b'' False (instant 60 utcLoc) (instant 70 utcLoc)) \<and>
   \<not> Events_Less (event_of ''4'' ''a'' False (instant 60 utcLoc) (instant 60 utcLoc))
                 (event_of ''5'' ''a'' False (instant 60 utcLoc) (instant 60 utcLoc)) \<and>
   \<not> Events_Less (event_of ''5'' ''a'' False (instant 60 utcLoc) (instant 60 utcLoc))
                 (event_of ''4'' ''a'' False (instant 60 utcLoc) (instant 60 utcLoc)) \<and>
   sort_Sort insertion_rest
             [event_of ''3'' ''b'' False (instant 60 utcLoc) (instant 70 utcLoc),
              event_of ''2'' ''a'' False (instant 60 utcLoc) (instant 60 utcLoc),
              event_of ''6'' ''z'' False (instant 30 utcLoc) (instant 90 utcLoc),
              event_of ''1'' ''z'' True (instant 90 utcLoc) (instant 90 utcLoc)]
   = [event_of ''1'' ''z'' True (instant 90 utcLoc) (instant 90 utcLoc),
      event_of ''6'' ''z'' False (instant 30 utcLoc) (instant 90 utcLoc),
      event_of ''2'' ''a'' False (instant 60 utcLoc) (instant 60 utcLoc),
      event_of ''3'' ''b'' False (instant 60 utcLoc) (instant 70 utcLoc)] \<and>
   sort_Sort insertion_rest (hourly [12, 11, 10, 9, 8, 7, 6, 5, 4, 3, 2, 1, 0])
   = hourly [0, 1, 2, 3, 4, 5, 6, 7, 8, 9, 10, 11, 12] \<and>
   sort_Sort insertion_rest (hourly [0, 1, 2, 3, 4, 5, 6, 7, 8, 9, 10, 11, 12])
   = hourly [0, 1, 2, 3, 4, 5, 6, 7, 8, 9, 10, 11, 12]"
proof -
  let ?e1 = "event_of ''1'' ''z'' True (instant 90 utcLoc) (instant 90 utcLoc)"
  let ?e2 = "event_of ''2'' ''a'' False (instant 60 utcLoc) (instant 60 utcLoc)"
  let ?e3 = "event_of ''3'' ''b'' False (instant 60 utcLoc) (instant 70 utcLoc)"
  let ?e4 = "event_of ''4'' ''a'' False (instant 60 utcLoc) (instant 60 utcLoc)"
  let ?e5 = "event_of ''5'' ''a'' False (instant 60 utcLoc) (instant 60 utcLoc)"
  let ?e6 = "event_of ''6'' ''z'' False (instant 30 utcLoc) (instant 90 utcLoc)"
  note T = Events_Less_strict_weak_order
  note order = T [THEN conjunct1, rule_format]
  note trans = T [THEN conjunct2, THEN conjunct2, THEN conjunct1, rule_format]
  note incomparable = T [THEN conjunct2, THEN conjunct2, THEN conjunct2, THEN conjunct1, rule_format]
  note sorting = T [THEN conjunct2, THEN conjunct2, THEN conjunct2, THEN conjunct2, rule_format]
  have h62: "Events_Less ?e6 ?e2"
    by (simp only: order) (simp add: event_of_def instant_def)
  have h26: "\<not> Events_Less ?e2 ?e6"
    by (simp only: order) (simp add: event_of_def instant_def)
  have h16: "Events_Less ?e1 ?e6"
    by (simp only: order) (simp add: event_of_def instant_def)
  have h23: "Events_Less ?e2 ?e3"
    by (simp only: order) (simp add: event_of_def instant_def)
  have h12: "Events_Less ?e1 ?e2"
    using trans [of ?e1 ?e6 ?e2] h16 h62 by simp
  have c13: "Events_Less ?e1 ?e3"
    using trans [of ?e1 ?e2 ?e3] h12 h23 by simp
  have h24: "\<not> Events_Less ?e2 ?e4 \<and> \<not> Events_Less ?e4 ?e2"
    by (simp only: order) (simp add: event_of_def instant_def)
  have h25: "\<not> Events_Less ?e2 ?e5 \<and> \<not> Events_Less ?e5 ?e2"
    by (simp only: order) (simp add: event_of_def instant_def)
  have c45: "\<not> Events_Less ?e4 ?e5 \<and> \<not> Events_Less ?e5 ?e4"
    using incomparable [of ?e4 ?e2 ?e5] h24 h25 by simp
  have s: "sort_Sort insertion_rest [?e3, ?e2, ?e6, ?e1] = [?e1, ?e6, ?e2, ?e3]"
    by code_simp
  have r: "sort_Sort insertion_rest (hourly [12, 11, 10, 9, 8, 7, 6, 5, 4, 3, 2, 1, 0])
     = hourly [0, 1, 2, 3, 4, 5, 6, 7, 8, 9, 10, 11, 12]"
    by code_simp
  have i: "sort_Sort insertion_rest (hourly [0, 1, 2, 3, 4, 5, 6, 7, 8, 9, 10, 11, 12])
     = hourly [0, 1, 2, 3, 4, 5, 6, 7, 8, 9, 10, 11, 12]"
    using sorting [of insertion_rest "hourly [12, 11, 10, 9, 8, 7, 6, 5, 4, 3, 2, 1, 0]"]
    by (simp only: r)
  from h62 h26 h16 h23 c13 c45 s r i show ?thesis
    by (intro conjI) simp_all
qed

subsection \<open>The display timezone\<close>

lemma zone_time_Date [simp]: "zone (time_Date y m d hh mm ss ns loc) = loc"
  by (simp add: time_Date_def Let_def split: prod.splits)

lemma zone_time_ParseInLocation:
  "time_ParseInLocation layout v loc = Some t \<Longrightarrow> zone t = loc"
  by (auto simp: time_ParseInLocation_def split: option.splits if_splits)

lemma zone_Time_Add [simp]: "zone (Time_Add t d) = zone t"
  by (simp add: Time_Add_def)

lemma zone_Time_In [simp]: "zone (Time_In t loc) = loc"
  by (simp add: Time_In_def)

lemma zone_parseDateTime:
  "parseDateTime c env prop = Inr (t, allDay) \<Longrightarrow> zone t = timezone c"
  by (auto simp: parseDateTime_def Let_def time_Parse_def
        split: if_splits option.splits dest: zone_time_ParseInLocation)

lemma zone_expand_occurrences:
  "list_all (in_zone (timezone c)) events \<Longrightarrow>
   list_all (in_zone (timezone c))
     (expand_occurrences c uid summary description location duration allDay queryStart queryEnd
        occurrences events)"
  by (induction occurrences arbitrary: events) (simp_all add: Let_def in_zone_def)

lemma zone_expandRecurringEvent:
  "expandRecurringEvent c env component uid summary description location startTime endTime
     allDay queryStart queryEnd = Inr events \<Longrightarrow>
   list_all (in_zone (timezone c)) events"
  by (auto simp: expandRecurringEvent_def Let_def zone_expand_occurrences
        split: option.splits)

lemma zone_parseEvent_endTime:
  "parseEvent_endTime c env component startTime allDay = Inr endTime \<Longrightarrow>
   zone startTime = timezone c \<Longrightarrow> zone endTime = timezone c"
  by (auto simp: parseEvent_endTime_def split: option.splits sum.splits prod.splits if_splits
        dest: zone_parseDateTime)

lemma zone_parseEvent:
  assumes "parseEvent c env component queryStart queryEnd = Inr events"
  shows "list_all (in_zone (timezone c)) events"
  using assms
  apply (simp add: parseEvent_def Let_def split: option.splits sum.splits prod.splits)
   apply (auto dest!: zone_parseDateTime zone_expandRecurringEvent
      dest: zone_parseEvent_endTime simp: in_zone_def)
  done

lemma zone_parseCalendarObject_children:
  "list_all (in_zone (timezone c)) events \<Longrightarrow>
   list_all (in_zone (timezone c))
     (parseCalendarObject_children c env queryStart queryEnd children events)"
  by (induction children arbitrary: events)
     (auto split: sum.splits dest: zone_parseEvent)

lemma zone_FetchEvents_objects:
  "list_all (in_zone (timezone c)) events \<Longrightarrow>
   list_all (in_zone (timezone c)) (FetchEvents_objects c env start end objects events)"
  by (induction objects arbitrary: events)
     (auto simp: parseCalendarObject_def zone_parseCalendarObject_children
        split: sum.splits option.splits)

lemma list_all_sort_Sort: "list_all P (sort_Sort rest events) = list_all P events"
  using sort_Sort_mset [of rest events] by (metis list_all_iff set_mset_mset)

lemma zone_FetchEvents:
  "FetchEvents c env start end = Inr events \<Longrightarrow> list_all (in_zone (timezone c)) events"
  by (auto simp: FetchEvents_def list_all_sort_Sort zone_FetchEvents_objects
        split: option.splits)

lemma zone_GetEvents_fetch:
  "\<forall>c \<in> set cs. timezone c = tz \<Longrightarrow> list_all (in_zone tz) allEvents \<Longrightarrow>
   list_all (in_zone tz) (fst (GetEvents_fetch env start end cs (allEvents, errs)))"
  by (induction cs arbitrary: allEvents errs)
     (auto split: sum.splits dest: zone_FetchEvents)

lemma zone_GetEvents:
  assumes "GetEvents h env startStr endStr = StatusOK_events events"
    and "\<forall>c \<in> set (clients h). timezone c = handler_timezone h"
  shows "list_all (in_zone (handler_timezone h)) events"
proof -
  from assms(1) obtain start "end" where
    ev: "events = sort_Sort (sort_pdqsort env) (fst (GetEvents_fetch env start end (clients h) ([], [])))"
    by (simp add: GetEvents_def Let_def split: option.splits prod.splits if_splits)
       (metis fst_conv)+
  show ?thesis
    unfolding ev list_all_sort_Sort
    by (rule zone_GetEvents_fetch [OF assms(2)]) simp
qed

text \<open>
  Claim C4. Every instant the code produces is presented in the configured display
  timezone: the instant \<open>parseDateTime\<close> returns, and the start and the end of every
  event that \<open>expandRecurringEvent\<close>, \<open>parseEvent\<close> (single events and recurring
  series), \<open>FetchEvents\<close> and, for clients created with the handler's timezone, the
  events endpoint return.
\<close>

theorem display_timezone_invariant:
  "(\<forall>c env prop t allDay.
      parseDateTime c env prop = Inr (t, allDay) \<longrightarrow> zone t = timezone c) \<and>
   (\<forall>c env component uid summary description location startTime endTime allDay
      queryStart queryEnd events.
      expandRecurringEvent c env component uid summary description location startTime endTime
        allDay queryStart queryEnd = Inr events \<longrightarrow>
      list_all (in_zone (timezone c)) events) \<and>
   (\<forall>c env component queryStart queryEnd events.
      parseEvent c env component queryStart queryEnd = Inr events \<longrightarrow>
      list_all (in_zone (timezone c)) events) \<and>
   (\<forall>c env start end events.
      FetchEvents c env start end = Inr events \<longrightarrow>
      list_all (in_zone (timezone c)) events) \<and>
   (\<forall>h env startStr endStr events.
      GetEvents h env startStr endStr = StatusOK_events events \<and>
      list_all (\<lambda>c. timezone c = handler_timezone h) (clients h) \<longrightarrow>
      list_all (in_zone (handler_timezone h)) events)"
proof (intro conjI allI impI)
  fix c env p t a
  assume "parseDateTime c env p = Inr (t, a)"
  then show "zone t = timezone c" by (rule zone_parseDateTime)
next
  fix c env component uid summary description location startTime endTime allDay
    queryStart queryEnd events
  assume "expandRecurringEvent c env component uid summary description location startTime
    endTime allDay queryStart queryEnd = Inr events"
  then show "list_all (in_zone (timezone c)) events" by (rule zone_expandRecurringEvent)
next
  fix c env component queryStart queryEnd events
  assume "parseEvent c env component queryStart queryEnd = Inr events"
  then show "list_all (in_zone (timezone c)) events" by (rule zone_parseEvent)
next
  fix c env start "end" events
  assume "FetchEvents c env start end = Inr events"
  then show "list_all (in_zone (timezone c)) events" by (rule zone_FetchEvents)
next
  fix h env startStr endStr events
  assume "GetEvents h env startStr endStr = StatusOK_events events \<and>
    list_all (\<lambda>c. timezone c = handler_timezone h) (clients h)"
  then show "list_all (in_zone (handler_timezone h)) events"
    using zone_GetEvents [of h env startStr endStr events] by (simp add: list_all_iff)
qed

text \<open>
  A UTC date-time, the stand-up series, the single meeting, and both through
  \<open>FetchEvents\<close> and the events endpoint, all with Rome as display timezone.
\<close>

theorem display_timezone_invariant_witness:
  "parseDateTime client_rome (env_of None) (prop_of ''20260112T080000Z'' [])
     = Inr (instant 1768204800 rome, False) \<and>
   zone (instant 1768204800 rome) = timezone client_rome \<and>
   map UID (projr (expandRecurringEvent client_rome (env_of None) standup ''standup'' ''Standup''
        [] [] (instant 1767600000 rome) (instant 1767600000 rome) False
        january_start january_end))
     = [''standup_20260105T090000'', ''standup_20260112T090000'', ''standup_20260119T090000''] \<and>
   list_all (in_zone rome)
     (projr (expandRecurringEvent client_rome (env_of None) standup ''standup'' ''Standup''
        [] [] (instant 1767600000 rome) (instant 1767600000 rome) False
        january_start january_end)) \<and>
   map UID (projr (parseEvent client_rome (env_of None) meeting january_start january_end))
     = [''meeting''] \<and>
   list_all (in_zone rome)
     (projr (parseEvent client_rome (env_of None) meeting january_start january_end)) \<and>
   map UID (projr (FetchEvents client_rome (env_of (Some january_objects))
        january_start january_end))
     = [''standup_20260105T090000'', ''standup_20260112T090000'', ''standup_20260119T090000'',
        ''meeting''] \<and>
   list_all (in_zone rome)
     (projr (FetchEvents client_rome (env_of (Some january_objects))
        january_start january_end)) \<and>
   map UID (response_events (GetEvents handler_rome (env_of (Some january_objects))
        ''2026-01-01'' ''2026-01-31''))
     = [''standup_20260105T090000'', ''standup_20260112T090000'', ''standup_20260119T090000'',
        ''meeting''] \<and>
   list_all (in_zone rome)
     (response_events (GetEvents handler_rome (env_of (Some january_objects))
        ''2026-01-01'' ''2026-01-31''))"
proof -
  note T = display_timezone_invariant
  note T1 = T [THEN conjunct1, rule_format]
  note T2 = T [THEN conjunct2, THEN conjunct1, rule_format]
  note T3 = T [THEN conjunct2, THEN conjunct2, THEN conjunct1, rule_format]
  note T4 = T [THEN conjunct2, THEN conjunct2, THEN conjunct2, THEN conjunct1, rule_format]
  note T5 = T [THEN conjunct2, THEN conjunct2, THEN conjunct2, THEN conjunct2, rule_format]
  let ?x = "expandRecurringEvent client_rome (env_of None) standup ''standup'' ''Standup''
        [] [] (instant 1767600000 rome) (instant 1767600000 rome) False
        january_start january_end"
  let ?p = "parseEvent client_rome (env_of None) meeting january_start january_end"
  let ?f = "FetchEvents client_rome (env_of (Some january_objects)) january_start january_end"
  let ?g = "GetEvents handler_rome (env_of (Some january_objects)) ''2026-01-01'' ''2026-01-31''"
  have tz: "timezone client_rome = rome" "handler_timezone handler_rome = rome"
    by (simp_all add: client_rome_def handler_rome_def)
  have d: "parseDateTime client_rome (env_of None) (prop_of ''20260112T080000Z'' [])
     = Inr (instant 1768204800 rome, False)"
    by code_simp
  have dz: "zone (instant 1768204800 rome) = timezone client_rome"
    using T1 [OF d] .
  have x: "map UID (projr ?x)
     = [''standup_20260105T090000'', ''standup_20260112T090000'', ''standup_20260119T090000'']"
    by code_simp
  have "\<not> isl ?x" by code_simp
  then have "?x = Inr (projr ?x)" by simp
  then have xz: "list_all (in_zone rome) (projr ?x)"
    using T2 [of client_rome _ _ _ _ _ _ _ _ _ _ _ "projr ?x"] tz by simp
  have p: "map UID (projr ?p) = [''meeting'']"
    by code_simp
  have "\<not> isl ?p" by code_simp
  then have "?p = Inr (projr ?p)" by simp
  then have pz: "list_all (in_zone rome) (projr ?p)"
    using T3 [of client_rome _ _ _ _ "projr ?p"] tz by simp
  have f: "map UID (projr ?f)
     = [''standup_20260105T090000'', ''standup_20260112T090000'', ''standup_20260119T090000'',
        ''meeting'']"
    by code_simp
  have "\<not> isl ?f" by code_simp
  then have "?f = Inr (projr ?f)" by simp
  then have fz: "list_all (in_zone rome) (projr ?f)"
    using T4 [of client_rome _ _ _ "projr ?f"] tz by simp
  have g: "map UID (response_events ?g)
     = [''standup_20260105T090000'', ''standup_20260112T090000'', ''standup_20260119T090000'',
        ''meeting'']"
    by code_simp
  have "is_StatusOK_events ?g" by code_simp
  then have "?g = StatusOK_events (response_events ?g)" by simp
  moreover have "list_all (\<lambda>c. timezone c = handler_timezone handler_rome) (clients handler_rome)"
    by (simp add: client_rome_def handler_rome_def)
  ultimately have gz: "list_all (in_zone rome) (response_events ?g)"
    using T5 [of handler_rome _ _ _ "response_events ?g"] tz by simp
  from d dz x xz p pz f fz g gz show ?thesis
    by (intro conjI)
qed

subsection \<open>Exclusion dates\<close>

text \<open>
  Claim C5 says that an exclusion entry is read like an event date-time, so that a value
  with the UTC marker \<open>Z\<close> is that UTC instant. \<open>parseICalDate\<close> reads all three
  formats in the display timezone, the one with the literal \<open>Z\<close> too: with Rome as
  display timezone, \<open>20260112T080000Z\<close> becomes 08:00 in Rome (07:00 UTC,
  Unix second 1768201200), where \<open>parseDateTime\<close> reads the same value as 08:00 UTC
  (Unix second 1768204800). The stand-up series excludes its second occurrence
  (09:00 in Rome, 08:00 UTC, on 2026-01-12) by that value, and the occurrence is still
  produced.
\<close>

theorem parseICalDate_reads_utc_marker_in_display_zone:
  "parseICalDate ''20260112T080000Z'' rome = Inr (instant 1768201200 rome) \<and>
   parseDateTime client_rome (env_of None) (prop_of ''20260112T080000Z'' [])
     = Inr (instant 1768204800 rome, False) \<and>
   map (\<lambda>e. unixNano (Start e))
     (projr (parseEvent client_rome (env_of None) standup january_start january_end))
     = [1767600000000000000, 1768204800000000000, 1768809600000000000]"
  by code_simp

subsection \<open>The end of a single event\<close>

text \<open>
  The end of an event is resolved in the order of \<open>parseEvent_endTime\<close>: the end
  marker, else the start plus the duration property, else the defaults, which are the
  start plus 24 hours for an all-day event and the start itself for a timed one. A
  single event carries that end.
\<close>

lemma parseEvent_endTime_default:
  "Props_Get component ''DTEND'' = None \<Longrightarrow> Props_Get component ''DURATION'' = None \<Longrightarrow>
   parseEvent_endTime c env component startTime allDay
   = Inr (if allDay then Time_Add startTime (24 * Hour) else startTime)"
  by (simp add: parseEvent_endTime_def)

lemma parseEvent_single:
  assumes "Props_Get component ''UID'' = Some uid"
    and "Props_Get component ''DTSTART'' = Some dtstart"
    and "parseDateTime c env dtstart = Inr (startTime, allDay)"
    and "Props_Get component ''RRULE'' = None"
    and "parseEvent_endTime c env component startTime allDay = Inr endTime"
  shows "\<exists>e. parseEvent c env component queryStart queryEnd = Inr [e] \<and>
    Start e = startTime \<and> End e = endTime \<and> AllDay e = allDay \<and> \<not> IsRecurring e"
  by (simp add: parseEvent_def Let_def assms)

text \<open>
  Claim C3 says that an all-day event without end and duration ends one calendar day
  after its start. The code adds 24 hours. On 2026-03-29 Rome moves its clocks forward
  and the day has 23 hours: the all-day event of that date starts at 00:00 (Unix second
  1774738800) and the code ends it at 01:00 on 2026-03-30 (Unix second 1774825200), one
  hour after the start of the next calendar day (\<open>AddDate(0, 0, 1)\<close>, Unix second
  1774821600).
\<close>

theorem parseEvent_all_day_end_is_24_hours_later:
  "map (\<lambda>e. (AllDay e, unixNano (Start e), unixNano (End e), Time_Day (End e), Time_Hour (End e)))
     (projr (parseEvent client_rome (env_of None) allday january_start january_end))
     = [(True, 1774738800000000000, 1774825200000000000, 30, 1)] \<and>
   Time_AddDate (instant 1774738800 rome) 0 0 1 = instant 1774821600 rome"
  by code_simp

subsection \<open>The window of the events endpoint\<close>

text \<open>
  Claim C10 says that the window handed to the fetches ends at 00:00 of the day after
  the end date, so that the end date is included. The code adds 24 hours to 00:00 of
  the end date. On 2026-10-25 Rome moves its clocks back and the day has 25 hours: for
  \<open>start=2026-10-25\<close> and \<open>end=2026-10-25\<close> the window starts at 00:00 (Unix second
  1792879200) and ends at 23:00 of the end date itself (Unix second 1792965600), one
  hour before 00:00 of 2026-10-26 (Unix second 1792969200).
\<close>

theorem GetEvents_window_ends_24_hours_after_end_date:
  "GetEvents_window handler_rome ''2026-10-25'' ''2026-10-25''
     = Some (instant 1792879200 rome, instant 1792965600 rome) \<and>
   (Time_Day (instant 1792965600 rome), Time_Hour (instant 1792965600 rome)) = (25, 23) \<and>
   time_Date 2026 10 26 0 0 0 0 rome = instant 1792969200 rome"
  by code_simp

subsection \<open>The days of a month\<close>

text \<open>
  Claim C9 says that the month endpoint returns the days of the requested month that
  have an occurrence. The code marks the day number of every event's start, whatever
  its month, and walks a timed event only while the walk is in the requested month. For
  February 2026 and an event from 23:00 on 2026-01-31 to 01:00 on 2026-02-01 the answer
  is day 31, a day February does not have, and day 1, on which the event takes place,
  is missing.
\<close>

theorem GetEventsMonth_marks_day_of_other_month:
  "GetEventsMonth handler_rome (env_of (Some february_objects)) ''2026'' ''2''
     = StatusOK_days {31}"
  by code_simp

subsection \<open>Aggregation over the sources\<close>

text \<open>What the loop over the sources collects, and what the handler answers.\<close>

lemma GetEvents_fetch_collects:
  "GetEvents_fetch env start end cs (allEvents, errs)
   = (allEvents @ concat (map (\<lambda>c. case FetchEvents c env start end of
                                       Inl err \<Rightarrow> [] | Inr events \<Rightarrow> events) cs),
      errs @ concat (map (\<lambda>c. case FetchEvents c env start end of
                                  Inl err \<Rightarrow> [err] | Inr events \<Rightarrow> []) cs))"
  by (induction cs arbitrary: allEvents errs) (simp_all split: sum.splits)

lemma GetEvents_answer:
  assumes "GetEvents_window h startStr endStr = Some (start, end)"
  shows "GetEvents h env startStr endStr
   = (if (\<exists>c \<in> set (clients h). isl (FetchEvents c env start end)) \<and>
         (\<forall>c \<in> set (clients h). \<forall>events. FetchEvents c env start end = Inr events \<longrightarrow> events = [])
      then StatusInternalServerError
      else StatusOK_events
             (sort_Sort (sort_pdqsort env) (concat (map (\<lambda>c. case FetchEvents c env start end of
                                             Inl err \<Rightarrow> [] | Inr events \<Rightarrow> events)
                                  (clients h)))))"
proof -
  let ?evs = "concat (map (\<lambda>c. case FetchEvents c env start end of
                                 Inl err \<Rightarrow> [] | Inr events \<Rightarrow> events) (clients h))"
  let ?errs = "concat (map (\<lambda>c. case FetchEvents c env start end of
                                  Inl err \<Rightarrow> [err] | Inr events \<Rightarrow> []) (clients h))"
  have e: "?errs \<noteq> [] \<longleftrightarrow> (\<exists>c \<in> set (clients h). isl (FetchEvents c env start end))"
  proof -
    have "(case r of Inl err \<Rightarrow> [err] | Inr events \<Rightarrow> []) \<noteq> [] \<longleftrightarrow> isl r"
      for r :: "error + Event list"
      by (cases r) simp_all
    then show ?thesis by auto
  qed
  have v: "?evs = [] \<longleftrightarrow>
      (\<forall>c \<in> set (clients h). \<forall>events. FetchEvents c env start end = Inr events \<longrightarrow> events = [])"
    by (auto split: sum.splits)
  have "GetEvents h env startStr endStr
        = (if ?errs \<noteq> [] \<and> ?evs = [] then StatusInternalServerError
           else StatusOK_events (sort_Sort (sort_pdqsort env) ?evs))"
    using assms by (simp add: GetEvents_def GetEvents_fetch_collects)
  then show ?thesis
    unfolding e v .
qed

text \<open>
  Claim C1 says that when some but not all sources fail, the result holds the
  occurrences of the surviving sources and no error is raised. The code raises the
  error whenever a source failed and no event was collected: of two sources, the first
  fails and the second answers with no event in the window, and the caller receives
  the error instead of the empty list, as when both fail. Without a failure the same
  empty answer is returned as a success.
\<close>

theorem GetEvents_partial_failure_without_events_is_error:
  "GetEvents handler_two env_one_down ''2026-01-01'' ''2026-01-31'' = StatusInternalServerError \<and>
   GetEvents_window handler_two ''2026-01-01'' ''2026-01-31'' = Some (january_start, january_end) \<and>
   FetchEvents client_birthdays env_one_down january_start january_end
     = Inl FailedToQueryCalendar \<and>
   FetchEvents client_rome env_one_down january_start january_end = Inr [] \<and>
   GetEvents handler_two (env_of (Some [])) ''2026-01-01'' ''2026-01-31'' = StatusOK_events []"
  by code_simp

subsection \<open>Recurrence expansion\<close>

lemma expand_occurrences_acc:
  "expand_occurrences c uid summary description location duration allDay queryStart queryEnd
     occurrences events
   = events @ expand_occurrences c uid summary description location duration allDay
       queryStart queryEnd occurrences []"
proof (induction occurrences arbitrary: events)
  case Nil
  show ?case by simp
next
  case (Cons occurrence rest)
  show ?case
    using Cons.IH [of events]
      Cons.IH [of "events @ [e]" for e] Cons.IH [of "[e]" for e]
    by (simp add: Let_def)
qed

lemma Start_expand_occurrences:
  "map Start (expand_occurrences c uid summary description location duration allDay
     queryStart queryEnd occurrences [])
   = filter (\<lambda>s. unixNano queryStart \<le> unixNano s + duration \<and> unixNano s \<le> unixNano queryEnd)
       (map (\<lambda>occ. Time_In occ (timezone c)) occurrences)"
proof (induction occurrences)
  case Nil
  show ?case by simp
next
  case (Cons occurrence rest)
  show ?case
    using Cons.IH
    by (subst expand_occurrences.simps, subst expand_occurrences_acc)
       (auto simp: Let_def Time_Before_def Time_After_def Time_Add_def Time_In_def)
qed

lemma End_expand_occurrences:
  "list_all (\<lambda>e. End e = Time_Add (Start e) duration) events \<Longrightarrow>
   list_all (\<lambda>e. End e = Time_Add (Start e) duration)
     (expand_occurrences c uid summary description location duration allDay
        queryStart queryEnd occurrences events)"
  by (induction occurrences arbitrary: events) (simp_all add: Let_def)

lemma expand_candidates_cap:
  "expand_candidates rule exdates queryStart queryEnd
   = take maxOccurrences
       (rrule_Set_Between rule exdates (Time_Add queryStart (- 30 * 24 * Hour))
          (Time_Add queryEnd (30 * 24 * Hour)))"
  by (simp add: expand_candidates_def Let_def)

lemma Time_Sub_exact:
  "minDuration \<le> unixNano t - unixNano u \<Longrightarrow> unixNano t - unixNano u \<le> maxDuration \<Longrightarrow>
   Time_Sub t u = unixNano t - unixNano u"
  by (simp add: Time_Sub_def Let_def)

text \<open>
  What \<open>expandRecurringEvent\<close> returns. Every occurrence ends at its start plus
  \<open>endTime.Sub(startTime)\<close> of the series (the difference of the two instants
  wherever it fits a \<open>Duration\<close>). The candidates are those of the enumeration over
  the window widened by 30 days on both sides, cut at 1000. A candidate is dropped when
  \<open>occEnd.Before(queryStart)\<close> or \<open>occStart.After(queryEnd)\<close>, so the ones kept are
  those with \<open>queryStart \<le> occEnd\<close> and \<open>occStart \<le> queryEnd\<close>, in the order of the
  enumeration.
\<close>

lemma expandRecurringEvent_occurrences:
  "(\<forall>c env component uid summary description location startTime endTime allDay
      queryStart queryEnd events.
      expandRecurringEvent c env component uid summary description location startTime endTime
        allDay queryStart queryEnd = Inr events \<longrightarrow>
      (\<exists>rruleProp rule.
         Props_Get component ''RRULE'' = Some rruleProp \<and>
         rrule_StrToRRule env (expand_rruleStr startTime allDay rruleProp) = Some rule \<and>
         map Start events
           = filter (\<lambda>s. unixNano queryStart \<le> unixNano s + Time_Sub endTime startTime \<and>
                          unixNano s \<le> unixNano queryEnd)
               (map (\<lambda>occ. Time_In occ (timezone c))
                  (expand_candidates rule (expand_exdateList c component) queryStart queryEnd)) \<and>
         list_all (\<lambda>e. End e = Time_Add (Start e) (Time_Sub endTime startTime)) events)) \<and>
   (\<forall>rule exdates queryStart queryEnd.
      expand_candidates rule exdates queryStart queryEnd
      = take maxOccurrences
          (rrule_Set_Between rule exdates (Time_Add queryStart (- 30 * 24 * Hour))
             (Time_Add queryEnd (30 * 24 * Hour)))) \<and>
   (\<forall>startTime endTime.
      minDuration \<le> unixNano endTime - unixNano startTime \<and>
      unixNano endTime - unixNano startTime \<le> maxDuration \<longrightarrow>
      Time_Sub endTime startTime = unixNano endTime - unixNano startTime)"
proof (intro conjI allI impI)
  fix c env component uid summary description location startTime endTime allDay
    queryStart queryEnd events
  assume r: "expandRecurringEvent c env component uid summary description location startTime
    endTime allDay queryStart queryEnd = Inr events"
  then obtain rruleProp rule where
    p: "Props_Get component ''RRULE'' = Some rruleProp" and
    q: "rrule_StrToRRule env (expand_rruleStr startTime allDay rruleProp) = Some rule"
    by (auto simp: expandRecurringEvent_def split: option.splits)
  from r p q have ev: "events = expand_occurrences c uid summary description location
      (Time_Sub endTime startTime) allDay queryStart queryEnd
      (expand_candidates rule (expand_exdateList c component) queryStart queryEnd) []"
    by (simp add: expandRecurringEvent_def Let_def)
  show "\<exists>rruleProp rule.
         Props_Get component ''RRULE'' = Some rruleProp \<and>
         rrule_StrToRRule env (expand_rruleStr startTime allDay rruleProp) = Some rule \<and>
         map Start events
           = filter (\<lambda>s. unixNano queryStart \<le> unixNano s + Time_Sub endTime startTime \<and>
                          unixNano s \<le> unixNano queryEnd)
               (map (\<lambda>occ. Time_In occ (timezone c))
                  (expand_candidates rule (expand_exdateList c component) queryStart queryEnd)) \<and>
         list_all (\<lambda>e. End e = Time_Add (Start e) (Time_Sub endTime startTime)) events"
    using p q
    by (intro exI [of _ rruleProp] exI [of _ rule])
       (simp add: ev Start_expand_occurrences End_expand_occurrences)
next
  fix rule exdates queryStart queryEnd
  show "expand_candidates rule exdates queryStart queryEnd
      = take maxOccurrences
          (rrule_Set_Between rule exdates (Time_Add queryStart (- 30 * 24 * Hour))
             (Time_Add queryEnd (30 * 24 * Hour)))"
    by (rule expand_candidates_cap)
next
  fix startTime endTime :: Time
  assume "minDuration \<le> unixNano endTime - unixNano startTime \<and>
      unixNano endTime - unixNano startTime \<le> maxDuration"
  then show "Time_Sub endTime startTime = unixNano endTime - unixNano startTime"
    by (simp add: Time_Sub_exact)
qed


text \<open>
  Claim C2 says that an occurrence whose interval does not intersect the window
  \<open>[queryStart, queryEnd)\<close> is discarded, and the code's comment says that only
  events that overlap with the query range are included. The filter drops an occurrence
  that starts after \<open>queryEnd\<close> (\<open>occStart.After(queryEnd)\<close>) and keeps the one that
  starts exactly at \<open>queryEnd\<close>, the bound that the handler builds as the first instant
  after the end date. For \<open>start=2026-01-01\<close> and \<open>end=2026-01-11\<close> with Rome as
  display timezone the window ends at 00:00 on 2026-01-12, and of the weekly series at
  00:00 the answer holds the occurrence of 2026-01-05 and the one of 2026-01-12, which
  starts at the end of the window, does not intersect it and lies on a day that was not
  asked for.
\<close>

theorem expandRecurringEvent_returns_occurrence_starting_at_window_end:
  "GetEvents_window handler_rome ''2026-01-01'' ''2026-01-11''
     = Some (january_start, eleven_days_end) \<and>
   map (\<lambda>e. (unixNano (Start e), unixNano (End e)))
     (projr (expandRecurringEvent client_rome (env_of None) midnight ''midnight'' ''Backup''
        [] [] (instant 1767567600 rome) (instant 1767571200 rome) False
        january_start eleven_days_end))
     = [(1767567600000000000, 1767571200000000000),
        (1768172400000000000, 1768176000000000000)] \<and>
   \<not> intersects_window (instant 1768172400 rome) (instant 1768176000 rome)
        january_start eleven_days_end \<and>
   map (\<lambda>e. (Time_Year (Start e), Time_Month (Start e), Time_Day (Start e), Time_Hour (Start e)))
     (response_events (GetEvents handler_rome (env_of (Some midnight_objects))
        ''2026-01-01'' ''2026-01-11''))
     = [(2026, 1, 5, 0), (2026, 1, 12, 0)]"
  by code_simp

subsection \<open>Durations\<close>











lemma i64_add_left [simp]: "i64 (i64 a + b) = i64 (a + b)"
proof -
  have "((a + 2 ^ 63) mod 2 ^ 64 - 2 ^ 63 + b + 2 ^ 63) mod 2 ^ 64
        = ((a + 2 ^ 63) mod 2 ^ 64 + b) mod (2 ^ 64 :: int)"
    by (simp add: algebra_simps)
  also have "\<dots> = (a + 2 ^ 63 + b) mod 2 ^ 64"
    by (rule mod_add_left_eq)
  finally show ?thesis
    by (simp add: i64_def algebra_simps)
qed

lemma i64_add_right [simp]: "i64 (a + i64 b) = i64 (a + b)"
  using i64_add_left [of b a] by (simp add: add.commute)

lemma i64_idem [simp]: "i64 (i64 a) = i64 a"
  using i64_add_left [of a 0] by simp

lemma i64_minus [simp]: "i64 (- i64 a) = i64 (- a)"
proof -
  have "(- ((a + 2 ^ 63) mod 2 ^ 64 - 2 ^ 63) + 2 ^ 63) mod 2 ^ 64
        = (2 ^ 64 - (a + 2 ^ 63) mod 2 ^ 64) mod (2 ^ 64 :: int)"
    by (simp add: algebra_simps)
  also have "\<dots> = (2 ^ 64 - (a + 2 ^ 63)) mod 2 ^ 64"
    by (rule mod_diff_right_eq)
  also have "\<dots> = (- a + 2 ^ 63) mod 2 ^ 64"
    by (simp add: algebra_simps)
  finally show ?thesis
    by (simp add: i64_def)
qed

text \<open>The first two parts of \<open>strings.Split\<close>.\<close>

lemma Split_not_Nil [simp]: "strings_Split s c \<noteq> []"
  by (induction s) (auto split: list.splits)








































end
